theory Spec2Isabelle
  imports Main
begin

section \<open>JavaScript values and the operations the source applies to them\<close>

text \<open>
  A value produced by \<open>JSON.parse\<close>. Numbers are the integers (token counts); an object is
  its list of members, looked up by key. The JavaScript value \<open>undefined\<close> is \<open>None\<close> of
  \<open>json option\<close>.
\<close>

datatype json =
    JNull
  | JBool bool
  | JNum int
  | JStr string
  | JArr "json list"
  | JObj "(string \<times> json) list"

datatype js_error = SyntaxError | TypeError | Error string

text \<open>\<open>v[k]\<close> for a value that is neither \<open>null\<close> nor \<open>undefined\<close>: only an object has the
  members the source asks for.\<close>

fun get :: "json \<Rightarrow> string \<Rightarrow> json option" where
  "get (JObj kvs) k = map_of kvs k"
| "get _ k = None"

text \<open>\<open>v?.[k]\<close>: \<open>undefined\<close> when \<open>v\<close> is \<open>null\<close> or \<open>undefined\<close>.\<close>

fun opt_get :: "json option \<Rightarrow> string \<Rightarrow> json option" where
  "opt_get None k = None"
| "opt_get (Some JNull) k = None"
| "opt_get (Some v) k = get v k"

text \<open>\<open>a ?? b\<close>: \<open>b\<close> when \<open>a\<close> is \<open>null\<close> or \<open>undefined\<close>.\<close>

fun nullish :: "json option \<Rightarrow> bool" where
  "nullish None = True"
| "nullish (Some JNull) = True"
| "nullish (Some _) = False"

definition coalesce :: "json option \<Rightarrow> json option \<Rightarrow> json option" where
  "coalesce a b = (if nullish a then b else a)"

text \<open>\<open>a ?? b\<close> where \<open>b\<close> is a value.\<close>

fun or_else :: "json option \<Rightarrow> json \<Rightarrow> json" where
  "or_else None b = b"
| "or_else (Some JNull) b = b"
| "or_else (Some v) b = v"

text \<open>The truth value of a value in a condition (\<open>if (v)\<close>, \<open>!v\<close>, \<open>a && b\<close>).\<close>

fun truthy :: "json option \<Rightarrow> bool" where
  "truthy None = False"
| "truthy (Some JNull) = False"
| "truthy (Some (JBool b)) = b"
| "truthy (Some (JNum n)) = (n \<noteq> 0)"
| "truthy (Some (JStr s)) = (s \<noteq> [])"
| "truthy (Some (JArr _)) = True"
| "truthy (Some (JObj _)) = True"

text \<open>The value itself when a condition on it holds (\<open>if (v) { ... v ... }\<close>).\<close>

definition truthy_val :: "json option \<Rightarrow> json option" where
  "truthy_val v = (if truthy v then v else None)"

text \<open>The same for a variable of type \<open>string | undefined\<close>: the empty string counts as
  false, like \<open>undefined\<close>.\<close>

fun open_id :: "string option \<Rightarrow> string option" where
  "open_id None = None"
| "open_id (Some s) = (if s = [] then None else Some s)"

text \<open>The keys of a JavaScript \<open>Map\<close> are compared by identity on arrays and objects: a key
  that \<open>JSON.parse\<close> built for one record is never found again from another record.
  Strings, numbers and booleans are found by value.\<close>

fun primitive :: "json \<Rightarrow> bool" where
  "primitive (JArr _) = False"
| "primitive (JObj _) = False"
| "primitive _ = True"

definition map_get :: "(json \<rightharpoonup> 'v) \<Rightarrow> json \<Rightarrow> 'v option" where
  "map_get m k = (if primitive k then m k else None)"

text \<open>Decimal digits of a natural number, and of an integer.\<close>

fun show_nat :: "nat \<Rightarrow> string" where
  "show_nat n =
     (if n < 10 then [char_of (48 + n)]
      else show_nat (n div 10) @ [char_of (48 + n mod 10)])"

declare show_nat.simps [simp del]

definition show_int :: "int \<Rightarrow> string" where
  "show_int i = (if i < 0 then CHR ''-'' # show_nat (nat (- i)) else show_nat (nat i))"

fun join :: "string \<Rightarrow> string list \<Rightarrow> string" where
  "join sep [] = []"
| "join sep [x] = x"
| "join sep (x # y # ys) = x @ sep @ join sep (y # ys)"

text \<open>The functions of the JavaScript runtime that the source calls: \<open>JSON.parse\<close>
  (\<open>None\<close> when it throws a SyntaxError), \<open>JSON.stringify\<close>, \<open>randomUUID\<close>
  (the \<open>n\<close>-th identifier drawn during a request), the base64 encoding of \<open>Buffer\<close>,
  and the string that a number becomes.\<close>

record runtime =
  json_parse :: "string \<Rightarrow> json option"
  json_stringify :: "json \<Rightarrow> string"
  uuid :: "nat \<Rightarrow> string"
  base64 :: "nat list \<Rightarrow> string"
  number_to_string :: "int \<Rightarrow> string"

text \<open>Whether a value can be converted to a primitive. The conversion of an object calls
  its \<open>toString\<close>, which is the inherited one unless the object has a member of that name;
  a member made by \<open>JSON.parse\<close> cannot be called, and \<open>valueOf\<close> gives back the object, so
  the conversion of such an object throws a TypeError. An array is converted by \<open>join\<close>,
  which converts each element.\<close>

fun convertible :: "json \<Rightarrow> bool" where
  "convertible (JArr xs) = list_all convertible xs"
| "convertible (JObj kvs) = (map_of kvs ''toString'' = None)"
| "convertible _ = True"

text \<open>The string that a convertible value becomes.\<close>

fun render :: "runtime \<Rightarrow> json \<Rightarrow> string" where
  "render rt JNull = ''null''"
| "render rt (JBool b) = (if b then ''true'' else ''false'')"
| "render rt (JNum n) = number_to_string rt n"
| "render rt (JStr s) = s"
| "render rt (JArr xs) =
     join '','' (map (\<lambda>x. if x = JNull then [] else render rt x) xs)"
| "render rt (JObj _) = ''[object Object]''"

text \<open>The string a value becomes in a template literal or on the right of \<open>string + v\<close>;
  \<open>None\<close> when the conversion throws a TypeError.\<close>

definition js_to_string :: "runtime \<Rightarrow> json \<Rightarrow> string option" where
  "js_to_string rt v = (if convertible v then Some (render rt v) else None)"

text \<open>The result of \<open>a - b\<close>. The subtraction throws a TypeError when an operand cannot be
  converted to a primitive. On two integers it is their difference as long as the operands
  and the difference are at most \<open>2^53\<close> in absolute value, where the arithmetic
  of doubles is exact. In every other case the result is the number that JavaScript
  computes from the two operands, which this model records without evaluating.\<close>

datatype js_number = Num int | Coerced json json

definition exact :: "int \<Rightarrow> bool" where
  "exact n = (\<bar>n\<bar> \<le> 2 ^ 53)"

fun js_minus :: "json \<Rightarrow> json \<Rightarrow> js_error + js_number" where
  "js_minus (JNum a) (JNum b) =
     (if exact a \<and> exact b \<and> exact (a - b) then Inr (Num (a - b))
      else Inr (Coerced (JNum a) (JNum b)))"
| "js_minus a b =
     (if convertible a \<and> convertible b then Inr (Coerced a b) else Inl TypeError)"

section \<open>Finish reason and usage (codex-language-model.ts, helpers)\<close>

datatype unified_reason = Stop | Length | ToolCalls | ContentFilter | ErrorReason | Other

record finish_reason =
  unified :: unified_reason
  raw_reason :: json

definition mapFinishReason :: "json \<Rightarrow> finish_reason" where
  "mapFinishReason reason =
     (if reason = JStr ''stop'' \<or> reason = JStr ''completed''
        then \<lparr>unified = Stop, raw_reason = reason\<rparr>
      else if reason = JStr ''length'' \<or> reason = JStr ''max_output_tokens''
        then \<lparr>unified = Length, raw_reason = reason\<rparr>
      else if reason = JStr ''tool_calls'' \<or> reason = JStr ''incomplete''
        then \<lparr>unified = ToolCalls, raw_reason = reason\<rparr>
      else if reason = JStr ''content_filter''
        then \<lparr>unified = ContentFilter, raw_reason = reason\<rparr>
      else if reason = JStr ''error'' \<or> reason = JStr ''failed''
        then \<lparr>unified = ErrorReason, raw_reason = reason\<rparr>
      else \<lparr>unified = Other, raw_reason = reason\<rparr>)"

record usage =
  input_total :: "json option"
  input_noCache :: "js_number option"
  input_cacheRead :: "json option"
  input_cacheWrite :: "json option"
  output_total :: "json option"
  output_text :: "js_number option"
  output_reasoning :: "json option"
  usage_raw :: "json option"

text \<open>\<open>a != null && b != null ? a - b : undefined\<close>\<close>

fun derived :: "json option \<Rightarrow> json option \<Rightarrow> js_error + js_number option" where
  "derived (Some a) (Some b) =
     (if a \<noteq> JNull \<and> b \<noteq> JNull
      then (case js_minus a b of Inl e \<Rightarrow> Inl e | Inr n \<Rightarrow> Inr (Some n))
      else Inr None)"
| "derived _ _ = Inr None"

text \<open>\<open>extractUsage\<close> builds its result field by field, \<open>noCache\<close> before \<open>text\<close>; a
  subtraction that throws ends it with that error.\<close>

definition extractUsage :: "json option \<Rightarrow> js_error + usage" where
  "extractUsage response =
     (let usage = opt_get response ''usage'';
          outputDetails = opt_get usage ''output_tokens_details'';
          inputDetails = opt_get usage ''input_tokens_details'';
          inputTotal = coalesce (opt_get usage ''input_tokens'') None;
          outputTotal = coalesce (opt_get usage ''output_tokens'') None;
          cachedTokens = coalesce (opt_get inputDetails ''cached_tokens'') None;
          reasoningTokens = coalesce (opt_get outputDetails ''reasoning_tokens'') None
      in case derived inputTotal cachedTokens of
           Inl e \<Rightarrow> Inl e
         | Inr noCache \<Rightarrow>
             (case derived outputTotal reasoningTokens of
                Inl e \<Rightarrow> Inl e
              | Inr text_tokens \<Rightarrow>
                  Inr \<lparr>input_total = inputTotal,
                       input_noCache = noCache,
                       input_cacheRead = cachedTokens,
                       input_cacheWrite = None,
                       output_total = outputTotal,
                       output_text = text_tokens,
                       output_reasoning = reasoningTokens,
                       usage_raw = usage\<rparr>))"

definition emptyUsage :: usage where
  "emptyUsage =
     \<lparr>input_total = None, input_noCache = None, input_cacheRead = None,
      input_cacheWrite = None, output_total = None, output_text = None,
      output_reasoning = None, usage_raw = None\<rparr>"

section \<open>The response translator (codex-language-model.ts)\<close>

text \<open>One record of the event stream, as \<open>EventSourceParserStream\<close> hands it on.\<close>

record event_source_chunk =
  data :: "string option"
  event :: "string option"
  chunk_id :: "string option"

text \<open>The \<open>type\<close> member of a parsed record, as the chain of \<open>type === '...'\<close> tests of
  both modes reads it.\<close>

datatype event_type =
    OutputTextDelta
  | OutputTextDone
  | ReasoningSummaryTextDelta
  | ReasoningSummaryTextDone
  | OutputItemAdded
  | FunctionCallArgumentsDelta
  | FunctionCallArgumentsDone
  | ResponseCompleted
  | OtherType

definition event_type_of :: "json option \<Rightarrow> event_type" where
  "event_type_of ty =
     (if ty = Some (JStr ''response.output_text.delta'') then OutputTextDelta
      else if ty = Some (JStr ''response.output_text.done'') then OutputTextDone
      else if ty = Some (JStr ''response.reasoning_summary_text.delta'')
        then ReasoningSummaryTextDelta
      else if ty = Some (JStr ''response.reasoning_summary_text.done'')
        then ReasoningSummaryTextDone
      else if ty = Some (JStr ''response.output_item.added'') then OutputItemAdded
      else if ty = Some (JStr ''response.function_call_arguments.delta'')
        then FunctionCallArgumentsDelta
      else if ty = Some (JStr ''response.function_call_arguments.done'')
        then FunctionCallArgumentsDone
      else if ty = Some (JStr ''response.completed'') then ResponseCompleted
      else OtherType)"

datatype warning = Unsupported string "string option"

record tool_info =
  tool_name :: json
  tool_id :: json

text \<open>The parts of a stream (\<open>LanguageModelV3StreamPart\<close>) that the source enqueues. Values
  taken from a record are passed on as they were parsed. The timestamp of
  \<open>response-metadata\<close> is left out.\<close>

datatype stream_part =
    StreamStart "warning list"
  | RawPart json
  | TextStart string
  | TextDelta string json
  | TextEnd string
  | ReasoningStart string
  | ReasoningDelta string json
  | ReasoningEnd string
  | ToolInputStart json json
  | ToolInputDelta json json
  | ToolInputEnd json
  | ToolCall json json "string option"
  | ResponseMetadata "json option" "json option"
  | Finish finish_reason usage
  | ErrorPart js_error

text \<open>The two maps that both modes keep, and the number of identifiers drawn so far.\<close>

record call_state =
  toolCallInfo :: "json \<rightharpoonup> tool_info"
  functionCallArgs :: "json \<rightharpoonup> string"
  uuids :: nat

record stream_state = call_state +
  isFirstChunk :: bool
  currentTextId :: "string option"
  currentReasoningId :: "string option"

definition stream_init :: stream_state where
  "stream_init =
     \<lparr>toolCallInfo = Map.empty, functionCallArgs = Map.empty, uuids = 0,
      isFirstChunk = True, currentTextId = None, currentReasoningId = None\<rparr>"

text \<open>What \<open>function_call_arguments.done\<close> resolves, the same way in both modes: the tool
  name, the argument string (with the accumulator of the item cleared), the tool call id
  (drawing an identifier only when the record has neither \<open>call_id\<close> nor \<open>item_id\<close>).\<close>

definition resolve_tool_name :: "(json \<rightharpoonup> tool_info) \<Rightarrow> json \<Rightarrow> json" where
  "resolve_tool_name info parsed =
     (let itemId = get parsed ''item_id'';
          toolInfo = (case truthy_val itemId of Some i \<Rightarrow> map_get info i | None \<Rightarrow> None)
      in or_else (coalesce (map_option tool_name toolInfo) (get parsed ''name''))
           (JStr ''unknown''))"

definition resolve_args ::
  "(json \<rightharpoonup> string) \<Rightarrow> json \<Rightarrow> json option \<times> (json \<rightharpoonup> string)" where
  "resolve_args fca parsed =
     (case truthy_val (get parsed ''item_id'') of
        None \<Rightarrow> (get parsed ''arguments'', fca)
      | Some i \<Rightarrow>
          (case map_get fca i of
             None \<Rightarrow> (get parsed ''arguments'', fca)
           | Some acc \<Rightarrow> (Some (JStr acc), fca(i := None))))"

fun args_string :: "runtime \<Rightarrow> json option \<Rightarrow> string option" where
  "args_string rt None = None"
| "args_string rt (Some (JStr s)) = Some s"
| "args_string rt (Some v) = Some (json_stringify rt v)"

definition resolve_call_id :: "runtime \<Rightarrow> nat \<Rightarrow> json \<Rightarrow> json \<times> nat" where
  "resolve_call_id rt n parsed =
     (if \<not> nullish (get parsed ''call_id'') then (or_else (get parsed ''call_id'') JNull, n)
      else if \<not> nullish (get parsed ''item_id'')
        then (or_else (get parsed ''item_id'') JNull, n)
      else (JStr (uuid rt n), Suc n))"

subsection \<open>Streaming mode: the \<open>transform\<close> of \<open>doStream\<close>\<close>

fun stream_dispatch ::
  "runtime \<Rightarrow> stream_state \<Rightarrow> json \<Rightarrow> event_type \<Rightarrow> stream_part list \<times> stream_state" where
  "stream_dispatch rt st parsed OutputTextDelta =
     (let delta = or_else (get parsed ''delta'') (JStr [])
      in case open_id (currentTextId st) of
           Some tid \<Rightarrow> ([TextDelta tid delta], st)
         | None \<Rightarrow>
             (let tid = uuid rt (uuids st)
              in ([TextStart tid, TextDelta tid delta],
                  st\<lparr>uuids := Suc (uuids st), currentTextId := Some tid\<rparr>)))"
| "stream_dispatch rt st parsed OutputTextDone =
     (case open_id (currentTextId st) of
        Some tid \<Rightarrow> ([TextEnd tid], st\<lparr>currentTextId := None\<rparr>)
      | None \<Rightarrow> ([], st))"
| "stream_dispatch rt st parsed ReasoningSummaryTextDelta =
     (let delta = or_else (get parsed ''delta'') (JStr [])
      in case open_id (currentReasoningId st) of
           Some rid \<Rightarrow> ([ReasoningDelta rid delta], st)
         | None \<Rightarrow>
             (let rid = uuid rt (uuids st)
              in ([ReasoningStart rid, ReasoningDelta rid delta],
                  st\<lparr>uuids := Suc (uuids st), currentReasoningId := Some rid\<rparr>)))"
| "stream_dispatch rt st parsed ReasoningSummaryTextDone =
     (case open_id (currentReasoningId st) of
        Some rid \<Rightarrow> ([ReasoningEnd rid], st\<lparr>currentReasoningId := None\<rparr>)
      | None \<Rightarrow> ([], st))"
| "stream_dispatch rt st parsed OutputItemAdded =
     (let item = get parsed ''item''
      in if opt_get item ''type'' = Some (JStr ''function_call'')
            \<and> truthy (opt_get item ''name'')
         then (case truthy_val (coalesce (opt_get item ''id'') (get parsed ''item_id'')) of
                 None \<Rightarrow> ([], st)
               | Some itemId \<Rightarrow>
                   (let name = or_else (opt_get item ''name'') JNull
                    in ([ToolInputStart itemId name],
                        st\<lparr>toolCallInfo := (toolCallInfo st)
                              (itemId \<mapsto> \<lparr>tool_name = name, tool_id = itemId\<rparr>)\<rparr>)))
         else ([], st))"
| "stream_dispatch rt st parsed FunctionCallArgumentsDelta =
     (case truthy_val (get parsed ''item_id'') of
        None \<Rightarrow> ([], st)
      | Some itemId \<Rightarrow>
          (case truthy_val (get parsed ''delta'') of
             None \<Rightarrow> ([], st)
           | Some delta \<Rightarrow>
               (let current = (case map_get (functionCallArgs st) itemId of
                                 None \<Rightarrow> [] | Some s \<Rightarrow> s)
                in case js_to_string rt delta of
                     None \<Rightarrow> ([ErrorPart TypeError], st)
                   | Some d \<Rightarrow>
                       ([ToolInputDelta itemId delta],
                        st\<lparr>functionCallArgs := (functionCallArgs st)
                              (itemId \<mapsto> current @ d)\<rparr>))))"
| "stream_dispatch rt st parsed FunctionCallArgumentsDone =
     (let toolName = resolve_tool_name (toolCallInfo st) parsed;
          (args, fca) = resolve_args (functionCallArgs st) parsed;
          argsString = args_string rt args;
          (toolCallId, n) = resolve_call_id rt (uuids st) parsed;
          ends = (case truthy_val (get parsed ''item_id'') of
                    None \<Rightarrow> [] | Some itemId \<Rightarrow> [ToolInputEnd itemId])
      in (ends @ [ToolCall toolCallId toolName argsString],
          st\<lparr>functionCallArgs := fca, uuids := n\<rparr>))"
| "stream_dispatch rt st parsed ResponseCompleted =
     (let closeText = (case open_id (currentTextId st) of
                         Some tid \<Rightarrow> [TextEnd tid] | None \<Rightarrow> []);
          textId = (case open_id (currentTextId st) of
                      Some tid \<Rightarrow> None | None \<Rightarrow> currentTextId st);
          closeReasoning = (case open_id (currentReasoningId st) of
                              Some rid \<Rightarrow> [ReasoningEnd rid] | None \<Rightarrow> []);
          reasoningId = (case open_id (currentReasoningId st) of
                           Some rid \<Rightarrow> None | None \<Rightarrow> currentReasoningId st);
          resp = get parsed ''response''
      in (closeText @ closeReasoning @
          [ResponseMetadata (opt_get resp ''id'') (coalesce (opt_get resp ''model'') None),
           (case extractUsage resp of
              Inl e \<Rightarrow> ErrorPart e
            | Inr u \<Rightarrow>
                Finish (mapFinishReason (or_else (opt_get resp ''status'') (JStr ''stop''))) u)],
          st\<lparr>currentTextId := textId, currentReasoningId := reasoningId\<rparr>))"
| "stream_dispatch rt st parsed OtherType = ([], st)"

text \<open>\<open>transform(chunk, controller)\<close>: the parts enqueued for one record and the state
  after it. \<open>JSON.parse\<close> throwing, and \<open>parsed['type']\<close> throwing on \<open>null\<close>, reach the
  \<open>catch\<close>, which enqueues an \<open>error\<close> part; both happen before \<open>stream-start\<close>.
  Two branches of the dispatch can throw as well, after \<open>stream-start\<close>: the concatenation
  \<open>current + delta\<close> of \<open>function_call_arguments.delta\<close>, before anything is stored or
  enqueued, and \<open>extractUsage\<close> of \<open>response.completed\<close>, after the open segments are
  closed and \<open>response-metadata\<close> is enqueued; the \<open>catch\<close> then enqueues the \<open>error\<close>
  part in place of the part that was not reached.\<close>

definition transform ::
  "runtime \<Rightarrow> bool \<Rightarrow> warning list \<Rightarrow> stream_state \<Rightarrow> event_source_chunk
     \<Rightarrow> stream_part list \<times> stream_state" where
  "transform rt includeRawChunks warnings st chunk =
     (case data chunk of
        None \<Rightarrow> ([], st)
      | Some d \<Rightarrow>
          if d = [] \<or> d = ''[DONE]'' then ([], st)
          else (case json_parse rt d of
                  None \<Rightarrow> ([ErrorPart SyntaxError], st)
                | Some JNull \<Rightarrow> ([ErrorPart TypeError], st)
                | Some parsed \<Rightarrow>
                    (let start = (if isFirstChunk st then [StreamStart warnings] else []);
                         rawPart = (if includeRawChunks then [RawPart parsed] else []);
                         (out, st') = stream_dispatch rt (st\<lparr>isFirstChunk := False\<rparr>) parsed
                                        (event_type_of (get parsed ''type''))
                     in (start @ rawPart @ out, st'))))"

text \<open>The stream that \<open>pipeThrough\<close> yields for the records of a response body.\<close>

fun transform_all ::
  "runtime \<Rightarrow> bool \<Rightarrow> warning list \<Rightarrow> stream_state \<Rightarrow> event_source_chunk list
     \<Rightarrow> stream_part list" where
  "transform_all rt raw ws st [] = []"
| "transform_all rt raw ws st (c # cs) =
     (let (out, st') = transform rt raw ws st c in out @ transform_all rt raw ws st' cs)"

subsection \<open>Buffered mode: the loop of \<open>doGenerate\<close>\<close>

datatype content =
    ContentText string
  | ContentReasoning string
  | ContentToolCall json json "string option"

record generate_state = call_state +
  accumulatedText :: string
  toolCalls :: "content list"
  finishReason :: finish_reason
  gen_usage :: usage
  responseId :: "json option"
  responseModelId :: "json option"

definition generate_init :: generate_state where
  "generate_init =
     \<lparr>toolCallInfo = Map.empty, functionCallArgs = Map.empty, uuids = 0,
      accumulatedText = [], toolCalls = [],
      finishReason = mapFinishReason (JStr ''stop''), gen_usage = emptyUsage,
      responseId = None, responseModelId = None\<rparr>"

text \<open>The branches of the \<open>try\<close> block. Three of them can throw a TypeError, which the
  \<open>catch\<close> ignores: the two concatenations, before anything is stored, and
  \<open>extractUsage\<close>, after the finish reason is stored and before usage and ids are.\<close>

fun generate_dispatch ::
  "runtime \<Rightarrow> generate_state \<Rightarrow> json \<Rightarrow> event_type \<Rightarrow> generate_state" where
  "generate_dispatch rt g parsed OutputTextDelta =
     (case js_to_string rt (or_else (get parsed ''delta'') (JStr [])) of
        None \<Rightarrow> g
      | Some d \<Rightarrow> g\<lparr>accumulatedText := accumulatedText g @ d\<rparr>)"
| "generate_dispatch rt g parsed OutputItemAdded =
     (let item = get parsed ''item''
      in if opt_get item ''type'' = Some (JStr ''function_call'')
            \<and> truthy (opt_get item ''name'')
         then (case truthy_val (coalesce (opt_get item ''id'') (get parsed ''item_id'')) of
                 None \<Rightarrow> g
               | Some itemId \<Rightarrow>
                   g\<lparr>toolCallInfo := (toolCallInfo g)
                       (itemId \<mapsto> \<lparr>tool_name = or_else (opt_get item ''name'') JNull,
                                   tool_id = itemId\<rparr>)\<rparr>)
         else g)"
| "generate_dispatch rt g parsed FunctionCallArgumentsDelta =
     (case truthy_val (get parsed ''item_id'') of
        None \<Rightarrow> g
      | Some itemId \<Rightarrow>
          (case truthy_val (get parsed ''delta'') of
             None \<Rightarrow> g
           | Some delta \<Rightarrow>
               (let current = (case map_get (functionCallArgs g) itemId of
                                 None \<Rightarrow> [] | Some s \<Rightarrow> s)
                in case js_to_string rt delta of
                     None \<Rightarrow> g
                   | Some d \<Rightarrow>
                       g\<lparr>functionCallArgs := (functionCallArgs g)
                           (itemId \<mapsto> current @ d)\<rparr>)))"
| "generate_dispatch rt g parsed FunctionCallArgumentsDone =
     (let toolName = resolve_tool_name (toolCallInfo g) parsed;
          (args, fca) = resolve_args (functionCallArgs g) parsed;
          argsString = args_string rt args;
          (toolCallId, n) = resolve_call_id rt (uuids g) parsed
      in g\<lparr>functionCallArgs := fca, uuids := n,
           toolCalls := toolCalls g @ [ContentToolCall toolCallId toolName argsString]\<rparr>)"
| "generate_dispatch rt g parsed ResponseCompleted =
     (let resp = get parsed ''response'';
          g' = g\<lparr>finishReason :=
                   mapFinishReason (or_else (opt_get resp ''status'') (JStr ''stop''))\<rparr>
      in case extractUsage resp of
           Inl e \<Rightarrow> g'
         | Inr u \<Rightarrow>
             g'\<lparr>gen_usage := u,
                responseId := opt_get resp ''id'',
                responseModelId := opt_get resp ''model''\<rparr>)"
| "generate_dispatch rt g parsed _ = g"

text \<open>One turn of the \<open>for (;;)\<close> loop; the \<open>catch\<close> ignores a record that does not parse,
  and one whose value is \<open>null\<close>, on which \<open>parsed['type']\<close> throws.\<close>

definition generate_step ::
  "runtime \<Rightarrow> generate_state \<Rightarrow> event_source_chunk \<Rightarrow> generate_state" where
  "generate_step rt g chunk =
     (case data chunk of
        None \<Rightarrow> g
      | Some d \<Rightarrow>
          if d = [] \<or> d = ''[DONE]'' then g
          else (case json_parse rt d of
                  None \<Rightarrow> g
                | Some JNull \<Rightarrow> g
                | Some parsed \<Rightarrow>
                    generate_dispatch rt g parsed (event_type_of (get parsed ''type''))))"

fun generate_all ::
  "runtime \<Rightarrow> generate_state \<Rightarrow> event_source_chunk list \<Rightarrow> generate_state" where
  "generate_all rt g [] = g"
| "generate_all rt g (c # cs) = generate_all rt (generate_step rt g c) cs"

subsection \<open>The two entry points\<close>

datatype response_format = FormatText | FormatJson

record call_options =
  topK :: "int option"
  responseFormat :: "response_format option"
  includeRawChunks :: bool

text \<open>The warnings that \<open>buildRequestBody\<close> collects.\<close>

definition buildRequestBody_warnings :: "call_options \<Rightarrow> warning list" where
  "buildRequestBody_warnings options =
     (if topK options \<noteq> None then [Unsupported ''topK'' None] else []) @
     (if responseFormat options = Some FormatJson
      then [Unsupported ''responseFormat''
              (Some ''JSON response format is not supported by the Codex API'')]
      else [])"

text \<open>What \<open>fetch\<close> returned: the status, the body as text (read on failure) and the body
  as the records that the event stream parser makes of it (read on success).\<close>

record fetch_response =
  ok :: bool
  status :: nat
  response_text :: string
  body :: "event_source_chunk list"

definition tryParseErrorMessage :: "runtime \<Rightarrow> string \<Rightarrow> json option" where
  "tryParseErrorMessage rt b =
     (case json_parse rt b of
        None \<Rightarrow> None
      | Some JNull \<Rightarrow> None
      | Some parsed \<Rightarrow> coalesce (opt_get (get parsed ''error'') ''message'') None)"

text \<open>What is thrown when \<open>response.ok\<close> is false: the error with the message of the
  template literal, or the TypeError of the literal itself when the message found in the
  body cannot be converted to a string.\<close>

definition api_error :: "runtime \<Rightarrow> fetch_response \<Rightarrow> js_error" where
  "api_error rt response =
     (case js_to_string rt (or_else (tryParseErrorMessage rt (response_text response))
                              (JStr (response_text response))) of
        None \<Rightarrow> TypeError
      | Some m \<Rightarrow>
          Error (''Codex API error '' @ number_to_string rt (int (status response)) @ '': ''
                 @ m))"

record generate_result =
  content :: "content list"
  result_finishReason :: finish_reason
  result_usage :: usage
  result_warnings :: "warning list"
  response_id :: "json option"
  response_modelId :: json

definition doGenerate ::
  "runtime \<Rightarrow> string \<Rightarrow> call_options \<Rightarrow> fetch_response \<Rightarrow> js_error + generate_result" where
  "doGenerate rt modelId options response =
     (if \<not> ok response then Inl (api_error rt response)
      else (let g = generate_all rt generate_init (body response)
            in Inr \<lparr>content =
                      (if accumulatedText g \<noteq> [] then [ContentText (accumulatedText g)]
                       else []) @ toolCalls g,
                    result_finishReason = finishReason g,
                    result_usage = gen_usage g,
                    result_warnings = buildRequestBody_warnings options,
                    response_id = responseId g,
                    response_modelId = or_else (responseModelId g) (JStr modelId)\<rparr>))"

definition doStream ::
  "runtime \<Rightarrow> call_options \<Rightarrow> fetch_response \<Rightarrow> js_error + stream_part list" where
  "doStream rt options response =
     (if \<not> ok response then Inl (api_error rt response)
      else Inr (transform_all rt (includeRawChunks options)
                  (buildRequestBody_warnings options) stream_init (body response)))"

subsection \<open>What a consumer reads off a stream and off a buffered result\<close>

text \<open>The text of a stream: its text deltas, concatenated as strings. There is none when a
  delta cannot be converted to a string.\<close>

fun stream_text :: "runtime \<Rightarrow> stream_part list \<Rightarrow> string option" where
  "stream_text rt [] = Some []"
| "stream_text rt (TextDelta i d # ps) =
     (case js_to_string rt d of
        None \<Rightarrow> None
      | Some s \<Rightarrow> map_option (\<lambda>t. s @ t) (stream_text rt ps))"
| "stream_text rt (p # ps) = stream_text rt ps"

fun stream_tool_calls :: "stream_part list \<Rightarrow> content list" where
  "stream_tool_calls [] = []"
| "stream_tool_calls (ToolCall i n a # ps) = ContentToolCall i n a # stream_tool_calls ps"
| "stream_tool_calls (p # ps) = stream_tool_calls ps"

text \<open>The finish reason and usage of the last \<open>finish\<close> part, if the stream has one.\<close>

fun stream_finish ::
  "stream_part list \<Rightarrow> (finish_reason \<times> usage) option \<Rightarrow> (finish_reason \<times> usage) option" where
  "stream_finish [] acc = acc"
| "stream_finish (Finish f u # ps) acc = stream_finish ps (Some (f, u))"
| "stream_finish (p # ps) acc = stream_finish ps acc"

fun result_text :: "content list \<Rightarrow> string" where
  "result_text [] = []"
| "result_text (ContentText t # cs) = t @ result_text cs"
| "result_text (c # cs) = result_text cs"

fun result_tool_calls :: "content list \<Rightarrow> content list" where
  "result_tool_calls [] = []"
| "result_tool_calls (ContentToolCall i n a # cs) = ContentToolCall i n a # result_tool_calls cs"
| "result_tool_calls (c # cs) = result_tool_calls cs"

fun is_reasoning_content :: "content \<Rightarrow> bool" where
  "is_reasoning_content (ContentReasoning t) = True"
| "is_reasoning_content _ = False"

text \<open>A tool call without its id: tool name and input.\<close>

fun name_and_input :: "content \<Rightarrow> content" where
  "name_and_input (ContentToolCall i n a) = ContentToolCall JNull n a"
| "name_and_input c = c"

text \<open>A record that reaches the dispatch: it has data, is not the \<open>[DONE]\<close> marker, and
  parses to a value other than \<open>null\<close>.\<close>

definition parsed_of :: "runtime \<Rightarrow> event_source_chunk \<Rightarrow> json option" where
  "parsed_of rt chunk =
     (case data chunk of
        None \<Rightarrow> None
      | Some d \<Rightarrow>
          if d = [] \<or> d = ''[DONE]'' then None
          else (case json_parse rt d of
                  None \<Rightarrow> None
                | Some JNull \<Rightarrow> None
                | Some parsed \<Rightarrow> Some parsed))"

definition chunk_type :: "runtime \<Rightarrow> event_source_chunk \<Rightarrow> event_type option" where
  "chunk_type rt chunk = map_option (\<lambda>parsed. event_type_of (get parsed ''type'')) (parsed_of rt chunk)"

text \<open>A record with data that is not the marker, whatever its data parses to.\<close>

definition has_data :: "event_source_chunk \<Rightarrow> bool" where
  "has_data chunk = (case data chunk of None \<Rightarrow> False | Some d \<Rightarrow> d \<noteq> [] \<and> d \<noteq> ''[DONE]'')"

text \<open>A \<open>function_call_arguments.done\<close> record with neither \<open>call_id\<close> nor \<open>item_id\<close>: its
  tool call id is drawn at random.\<close>

definition draws_call_id :: "runtime \<Rightarrow> event_source_chunk \<Rightarrow> bool" where
  "draws_call_id rt chunk =
     (case parsed_of rt chunk of
        None \<Rightarrow> False
      | Some parsed \<Rightarrow>
          event_type_of (get parsed ''type'') = FunctionCallArgumentsDone
          \<and> nullish (get parsed ''call_id'') \<and> nullish (get parsed ''item_id''))"

fun is_stream_start :: "stream_part \<Rightarrow> bool" where
  "is_stream_start (StreamStart ws) = True"
| "is_stream_start _ = False"

fun is_error_part :: "stream_part \<Rightarrow> bool" where
  "is_error_part (ErrorPart e) = True"
| "is_error_part _ = False"

fun is_finish :: "stream_part \<Rightarrow> bool" where
  "is_finish (Finish f u) = True"
| "is_finish _ = False"

text \<open>The number of \<open>-end\<close> parts that close a given \<open>-start\<close> part.\<close>

fun closes :: "stream_part \<Rightarrow> stream_part \<Rightarrow> bool" where
  "closes (TextStart i) (TextEnd j) = (i = j)"
| "closes (ReasoningStart i) (ReasoningEnd j) = (i = j)"
| "closes (ToolInputStart i n) (ToolInputEnd j) = (i = j)"
| "closes _ _ = False"

fun is_start :: "stream_part \<Rightarrow> bool" where
  "is_start (TextStart i) = True"
| "is_start (ReasoningStart i) = True"
| "is_start (ToolInputStart i n) = True"
| "is_start _ = False"

fun is_segment_start :: "stream_part \<Rightarrow> bool" where
  "is_segment_start (TextStart i) = True"
| "is_segment_start (ReasoningStart i) = True"
| "is_segment_start _ = False"

definition ends_before_finish :: "stream_part \<Rightarrow> stream_part list \<Rightarrow> nat" where
  "ends_before_finish p ps = length (filter (closes p) (takeWhile (\<lambda>q. \<not> is_finish q) ps))"

text \<open>Every start part is followed by exactly one matching end part before any finish.\<close>

fun every_start_closed :: "stream_part list \<Rightarrow> bool" where
  "every_start_closed [] = True"
| "every_start_closed (p # ps) =
     ((if is_start p then ends_before_finish p ps = 1 else True) \<and> every_start_closed ps)"

text \<open>Every text or reasoning start part that a finish part follows has exactly one matching
  end part before that finish.\<close>

fun segments_closed_at_finish :: "stream_part list \<Rightarrow> bool" where
  "segments_closed_at_finish [] = True"
| "segments_closed_at_finish (p # ps) =
     ((if is_segment_start p \<and> list_ex is_finish ps then ends_before_finish p ps = 1 else True)
      \<and> segments_closed_at_finish ps)"

text \<open>The life cycle of the text and reasoning segments, checked part by part: a start opens
  a segment under an id not used before while none of its kind is open, a delta and an end
  name the open segment, and at a finish no segment is open.\<close>

fun lifecycle ::
  "stream_part list \<Rightarrow> string option \<Rightarrow> string option \<Rightarrow> string list \<Rightarrow> bool" where
  "lifecycle [] t r used = True"
| "lifecycle (TextStart i # ps) t r used =
     (t = None \<and> i \<notin> set used \<and> lifecycle ps (Some i) r (i # used))"
| "lifecycle (TextDelta i d # ps) t r used = (t = Some i \<and> lifecycle ps t r used)"
| "lifecycle (TextEnd i # ps) t r used = (t = Some i \<and> lifecycle ps None r used)"
| "lifecycle (ReasoningStart i # ps) t r used =
     (r = None \<and> i \<notin> set used \<and> lifecycle ps t (Some i) (i # used))"
| "lifecycle (ReasoningDelta i d # ps) t r used = (r = Some i \<and> lifecycle ps t r used)"
| "lifecycle (ReasoningEnd i # ps) t r used = (r = Some i \<and> lifecycle ps t None used)"
| "lifecycle (Finish f u # ps) t r used = (t = None \<and> r = None \<and> lifecycle ps t r used)"
| "lifecycle (p # ps) t r used = lifecycle ps t r used"

section \<open>The request encoder (convert-to-codex-messages.ts)\<close>

datatype file_data = DataURL string | DataString string | DataBytes "nat list"

datatype user_part =
    UserText string
  | UserFile string file_data "string option"

datatype assistant_part =
    AssistantText string
  | AssistantReasoning string
  | AssistantToolCall string string json
  | AssistantFile
  | AssistantToolResult

datatype content_item = ItemText string | ItemOther

datatype tool_result_output =
    OutText string
  | OutErrorText string
  | OutJson json
  | OutErrorJson json
  | OutExecutionDenied "string option"
  | OutContent "content_item list"
  | OutOther

datatype tool_part = ToolResult string tool_result_output | ToolApprovalResponse

datatype message =
    SystemMessage string
  | UserMessage "user_part list"
  | AssistantMessage "assistant_part list"
  | ToolMessage "tool_part list"

datatype codex_content = InputText string | InputImage string | OutputText string

text \<open>\<open>CodexInputItem\<close>: a message of one of three roles, a function call (id, call id,
  name, arguments) or a function call output (call id, output).\<close>

datatype codex_input_item =
    CodexSystemMessage "codex_content list"
  | CodexUserMessage "codex_content list"
  | CodexAssistantMessage "codex_content list"
  | CodexFunctionCall string string string string
  | CodexFunctionCallOutput string string

record codex_input =
  instructions :: string
  input :: "codex_input_item list"

definition starts_with :: "string \<Rightarrow> string \<Rightarrow> bool" where
  "starts_with s pre = (take (length pre) s = pre)"

fun convert_user_part :: "runtime \<Rightarrow> user_part \<Rightarrow> codex_content" where
  "convert_user_part rt (UserText t) = InputText t"
| "convert_user_part rt (UserFile mediaType d filename) =
     (if starts_with mediaType ''image/''
      then InputImage
             (case d of
                DataURL u \<Rightarrow> u
              | DataString b \<Rightarrow> ''data:'' @ mediaType @ '';base64,'' @ b
              | DataBytes bs \<Rightarrow> ''data:'' @ mediaType @ '';base64,'' @ base64 rt bs)
      else InputText
             (''[File: '' @ (case filename of None \<Rightarrow> ''unnamed'' | Some f \<Rightarrow> f)
                @ '' ('' @ mediaType @ '')]''))"

fun assistant_text_parts :: "assistant_part list \<Rightarrow> codex_content list" where
  "assistant_text_parts [] = []"
| "assistant_text_parts (AssistantText t # ps) = OutputText t # assistant_text_parts ps"
| "assistant_text_parts (AssistantReasoning t # ps) =
     OutputText (''<reasoning>'' @ [CHR 0x0A] @ t @ [CHR 0x0A] @ ''</reasoning>'')
       # assistant_text_parts ps"
| "assistant_text_parts (p # ps) = assistant_text_parts ps"

fun assistant_function_calls :: "runtime \<Rightarrow> assistant_part list \<Rightarrow> codex_input_item list" where
  "assistant_function_calls rt [] = []"
| "assistant_function_calls rt (AssistantToolCall toolCallId toolName inp # ps) =
     CodexFunctionCall toolCallId toolCallId toolName
       (case inp of JStr s \<Rightarrow> s | v \<Rightarrow> json_stringify rt v)
       # assistant_function_calls rt ps"
| "assistant_function_calls rt (p # ps) = assistant_function_calls rt ps"

fun text_pieces :: "content_item list \<Rightarrow> string list" where
  "text_pieces [] = []"
| "text_pieces (ItemText t # xs) = t # text_pieces xs"
| "text_pieces (ItemOther # xs) = text_pieces xs"

fun output_text_of :: "runtime \<Rightarrow> tool_result_output \<Rightarrow> string" where
  "output_text_of rt (OutText v) = v"
| "output_text_of rt (OutErrorText v) = v"
| "output_text_of rt (OutJson v) = json_stringify rt v"
| "output_text_of rt (OutErrorJson v) = json_stringify rt v"
| "output_text_of rt (OutExecutionDenied reason) =
     (case reason of None \<Rightarrow> ''Tool execution denied'' | Some r \<Rightarrow> r)"
| "output_text_of rt (OutContent xs) = join [CHR 0x0A] (text_pieces xs)"
| "output_text_of rt OutOther = []"

fun convert_tool_parts :: "runtime \<Rightarrow> tool_part list \<Rightarrow> codex_input_item list" where
  "convert_tool_parts rt [] = []"
| "convert_tool_parts rt (ToolResult toolCallId out # ps) =
     CodexFunctionCallOutput toolCallId (output_text_of rt out) # convert_tool_parts rt ps"
| "convert_tool_parts rt (ToolApprovalResponse # ps) = convert_tool_parts rt ps"

text \<open>The body of the loop over the prompt: the system parts and the items after one more
  message.\<close>

fun convert_message ::
  "runtime \<Rightarrow> string list \<times> codex_input_item list \<Rightarrow> message
     \<Rightarrow> string list \<times> codex_input_item list" where
  "convert_message rt (systemParts, items) (SystemMessage c) = (systemParts @ [c], items)"
| "convert_message rt (systemParts, items) (UserMessage parts) =
     (systemParts, items @ [CodexUserMessage (map (convert_user_part rt) parts)])"
| "convert_message rt (systemParts, items) (AssistantMessage parts) =
     (let textParts = assistant_text_parts parts
      in (systemParts,
          items @ (if textParts \<noteq> [] then [CodexAssistantMessage textParts] else [])
                @ assistant_function_calls rt parts))"
| "convert_message rt (systemParts, items) (ToolMessage parts) =
     (systemParts, items @ convert_tool_parts rt parts)"

definition convertToCodexInput :: "runtime \<Rightarrow> message list \<Rightarrow> codex_input" where
  "convertToCodexInput rt prompt =
     (let (systemParts, items) = foldl (convert_message rt) ([], []) prompt
      in \<lparr>instructions =
            (if systemParts \<noteq> [] then join [CHR 0x0A, CHR 0x0A] systemParts
             else ''You are a helpful assistant.''),
          input = items\<rparr>)"

fun system_contents :: "message list \<Rightarrow> string list" where
  "system_contents [] = []"
| "system_contents (SystemMessage c # ms) = c # system_contents ms"
| "system_contents (m # ms) = system_contents ms"

fun is_system_item :: "codex_input_item \<Rightarrow> bool" where
  "is_system_item (CodexSystemMessage c) = True"
| "is_system_item _ = False"

section \<open>Header assembly (codex-provider.ts, codex-auth.ts)\<close>

type_synonym headers = "string \<rightharpoonup> string"

record provider_settings =
  apiKey :: "string option"
  refreshToken :: "string option"
  useApiKey :: bool
  custom_headers :: headers

record refresh_session =
  accessToken :: string
  session_refreshToken :: string
  accountId :: string
  expiresAt :: "int option"

text \<open>\<open>CodexAuth.getHeaders\<close>, from the outcomes of \<open>getAccessToken\<close> and \<open>getAccountId\<close>
  (both read the auth file).\<close>

definition CodexAuth_getHeaders :: "js_error + string \<Rightarrow> js_error + string \<Rightarrow> js_error + headers" where
  "CodexAuth_getHeaders accessTokenResult accountIdResult =
     (case accessTokenResult of
        Inl e \<Rightarrow> Inl e
      | Inr token \<Rightarrow>
          (case accountIdResult of
             Inl e \<Rightarrow> Inl e
           | Inr account \<Rightarrow>
               Inr [''Authorization'' \<mapsto> ''Bearer '' @ token,
                    ''chatgpt-account-id'' \<mapsto> account,
                    ''Content-Type'' \<mapsto> ''application/json'']))"

fun error_text :: "js_error \<Rightarrow> string" where
  "error_text SyntaxError = ''SyntaxError''"
| "error_text TypeError = ''TypeError''"
| "error_text (Error m) = ''Error: '' @ m"

text \<open>\<open>getHeaders\<close> of \<open>createCodex\<close>. Its three awaited collaborators are given by their
  outcomes: the session after \<open>ensureRefreshSession\<close>, the key that \<open>loadApiKey\<close> finds in
  the environment, and the headers of \<open>CodexAuth.getHeaders\<close>. A string option counts as
  set when it is a non-empty string.\<close>

definition getHeaders ::
  "provider_settings \<Rightarrow> js_error + refresh_session \<Rightarrow> js_error + string
     \<Rightarrow> js_error + headers \<Rightarrow> js_error + headers" where
  "getHeaders options session envKey authHeaders =
     (case open_id (apiKey options) of
        Some key \<Rightarrow>
          Inr ((custom_headers options)
                 (''Authorization'' \<mapsto> ''Bearer '' @ key,
                  ''Content-Type'' \<mapsto> ''application/json''))
      | None \<Rightarrow>
          (case open_id (refreshToken options) of
             Some token \<Rightarrow>
               (case session of
                  Inl e \<Rightarrow> Inl e
                | Inr s \<Rightarrow>
                    Inr ([''Authorization'' \<mapsto> ''Bearer '' @ accessToken s,
                          ''chatgpt-account-id'' \<mapsto> accountId s,
                          ''Content-Type'' \<mapsto> ''application/json'',
                          ''originator'' \<mapsto> ''codex'',
                          ''accept'' \<mapsto> ''text/event-stream'']
                         ++ custom_headers options))
           | None \<Rightarrow>
               if useApiKey options
               then (case envKey of
                       Inl e \<Rightarrow> Inl e
                     | Inr key \<Rightarrow>
                         Inr ((custom_headers options)
                                (''Authorization'' \<mapsto> ''Bearer '' @ key,
                                 ''Content-Type'' \<mapsto> ''application/json'')))
               else (case authHeaders of
                       Inl e \<Rightarrow>
                         Inl (Error
                           (''Failed to load authentication from ~/.codex/auth.json. ''
                            @ ''Please run '' @ [CHR 0x27] @ ''codex login'' @ [CHR 0x27]
                            @ '' first or provide apiKey/useApiKey/refreshToken. ''
                            @ ''Error: '' @ error_text e))
                     | Inr h \<Rightarrow>
                         Inr (h(''originator'' \<mapsto> ''codex'',
                                ''accept'' \<mapsto> ''text/event-stream'')
                              ++ custom_headers options))))"

text \<open>Every header that the caller supplied is in the result, with the caller's value.\<close>

definition caller_wins :: "headers \<Rightarrow> headers \<Rightarrow> bool" where
  "caller_wins custom result = (\<forall>k \<in> dom custom. result k = custom k)"

text \<open>The state of the stream after a list of records.\<close>

fun stream_state_after ::
  "runtime \<Rightarrow> bool \<Rightarrow> warning list \<Rightarrow> stream_state \<Rightarrow> event_source_chunk list
     \<Rightarrow> stream_state" where
  "stream_state_after rt raw ws st [] = st"
| "stream_state_after rt raw ws st (c # cs) =
     stream_state_after rt raw ws (snd (transform rt raw ws st c)) cs"

section \<open>Sample records\<close>

definition text_delta_He :: string where
  \<open>text_delta_He = ''{"type":"response.output_text.delta","delta":"He"}''\<close>

definition text_delta_llo :: string where
  \<open>text_delta_llo = ''{"type":"response.output_text.delta","delta":"llo"}''\<close>

definition text_done :: string where
  \<open>text_done = ''{"type":"response.output_text.done"}''\<close>

definition reasoning_delta :: string where
  \<open>reasoning_delta = ''{"type":"response.reasoning_summary_text.delta","delta":"hm"}''\<close>

definition reasoning_done :: string where
  \<open>reasoning_done = ''{"type":"response.reasoning_summary_text.done"}''\<close>

definition item_added :: string where
  \<open>item_added = ''{"type":"response.output_item.added","item":{"type":"function_call","id":"fc_1","name":"getWeather"}}''\<close>

definition args_delta_1 :: string where
  \<open>args_delta_1 = ''{"type":"response.function_call_arguments.delta","item_id":"fc_1","delta":"{''
      @ [CHR 0x5C] @ ''"a'' @ [CHR 0x5C] @ ''":"}''\<close>

definition args_delta_2 :: string where
  \<open>args_delta_2 = ''{"type":"response.function_call_arguments.delta","item_id":"fc_1","delta":"1}"}''\<close>

definition args_done :: string where
  \<open>args_done = ''{"type":"response.function_call_arguments.done","item_id":"fc_1"}''\<close>

definition args_done_no_id :: string where
  \<open>args_done_no_id = ''{"type":"response.function_call_arguments.done","name":"ping","arguments":"{}"}''\<close>

definition args_done_object :: string where
  \<open>args_done_object = ''{"type":"response.function_call_arguments.done","call_id":"call_7","name":"ping","arguments":{"a":1}}''\<close>

definition completed :: string where
  \<open>completed = ''{"type":"response.completed","response":{"id":"resp_1","model":"gpt-5","status":"completed","usage":{"input_tokens":5,"output_tokens":2}}}''\<close>

definition text_delta_object :: string where
  \<open>text_delta_object = ''{"type":"response.output_text.delta","delta":{"toString":1}}''\<close>

definition completed_opaque :: string where
  \<open>completed_opaque = ''{"type":"response.completed","response":{"status":"completed","usage":{"input_tokens":{"toString":1},"input_tokens_details":{"cached_tokens":1}}}}''\<close>

definition malformed :: string where
  \<open>malformed = ''{"type":''\<close>

definition error_body_object :: string where
  \<open>error_body_object = ''{"error":{"message":{"toString":1}}}''\<close>

definition error_body :: string where
  \<open>error_body = ''{"error":{"message":"bad token"}}''\<close>

definition completed_response :: json where
  "completed_response =
     JObj [(''id'', JStr ''resp_1''), (''model'', JStr ''gpt-5''), (''status'', JStr ''completed''),
           (''usage'', JObj [(''input_tokens'', JNum 5), (''output_tokens'', JNum 2)])]"

definition detailed_response :: json where
  "detailed_response =
     JObj [(''status'', JStr ''completed''),
           (''usage'', JObj [(''input_tokens'', JNum 5), (''output_tokens'', JNum 2),
                             (''input_tokens_details'', JObj [(''cached_tokens'', JNum 3)]),
                             (''output_tokens_details'', JObj [(''reasoning_tokens'', JNum 1)])])]"

text \<open>What \<open>JSON.parse\<close> returns on the sample records; on any other text it throws.\<close>

definition sample_parse :: "string \<Rightarrow> json option" where
  "sample_parse =
     map_of
       [(text_delta_He,
           JObj [(''type'', JStr ''response.output_text.delta''), (''delta'', JStr ''He'')]),
        (text_delta_llo,
           JObj [(''type'', JStr ''response.output_text.delta''), (''delta'', JStr ''llo'')]),
        (text_done, JObj [(''type'', JStr ''response.output_text.done'')]),
        (reasoning_delta,
           JObj [(''type'', JStr ''response.reasoning_summary_text.delta''),
                 (''delta'', JStr ''hm'')]),
        (reasoning_done, JObj [(''type'', JStr ''response.reasoning_summary_text.done'')]),
        (item_added,
           JObj [(''type'', JStr ''response.output_item.added''),
                 (''item'', JObj [(''type'', JStr ''function_call''), (''id'', JStr ''fc_1''),
                                  (''name'', JStr ''getWeather'')])]),
        (args_delta_1,
           JObj [(''type'', JStr ''response.function_call_arguments.delta''),
                 (''item_id'', JStr ''fc_1''), (''delta'', JStr (''{'' @ [CHR 0x22] @ ''a'' @ [CHR 0x22] @ '':''))]),
        (args_delta_2,
           JObj [(''type'', JStr ''response.function_call_arguments.delta''),
                 (''item_id'', JStr ''fc_1''), (''delta'', JStr ''1}'')]),
        (args_done,
           JObj [(''type'', JStr ''response.function_call_arguments.done''),
                 (''item_id'', JStr ''fc_1'')]),
        (args_done_no_id,
           JObj [(''type'', JStr ''response.function_call_arguments.done''),
                 (''name'', JStr ''ping''), (''arguments'', JStr ''{}'')]),
        (args_done_object,
           JObj [(''type'', JStr ''response.function_call_arguments.done''),
                 (''call_id'', JStr ''call_7''), (''name'', JStr ''ping''),
                 (''arguments'', JObj [(''a'', JNum 1)])]),
        (completed,
           JObj [(''type'', JStr ''response.completed''), (''response'', completed_response)]),
        (text_delta_object,
           JObj [(''type'', JStr ''response.output_text.delta''),
                 (''delta'', JObj [(''toString'', JNum 1)])]),
        (completed_opaque,
           JObj [(''type'', JStr ''response.completed''),
                 (''response'',
                    JObj [(''status'', JStr ''completed''),
                          (''usage'',
                             JObj [(''input_tokens'', JObj [(''toString'', JNum 1)]),
                                   (''input_tokens_details'',
                                      JObj [(''cached_tokens'', JNum 1)])])])]),
        (error_body, JObj [(''error'', JObj [(''message'', JStr ''bad token'')])]),
        (error_body_object,
           JObj [(''error'', JObj [(''message'', JObj [(''toString'', JNum 1)])])])]"

text \<open>What \<open>JSON.stringify\<close> returns on a value whose strings hold no control characters.\<close>

fun escape_char :: "char \<Rightarrow> string" where
  "escape_char c =
     (if c = CHR 0x22 then [CHR 0x5C, CHR 0x22]
      else if c = CHR 0x5C then [CHR 0x5C, CHR 0x5C]
      else [c])"

definition quote :: "string \<Rightarrow> string" where
  "quote s = [CHR 0x22] @ concat (map escape_char s) @ [CHR 0x22]"

fun sample_stringify :: "json \<Rightarrow> string" where
  "sample_stringify JNull = ''null''"
| "sample_stringify (JBool b) = (if b then ''true'' else ''false'')"
| "sample_stringify (JNum n) = show_int n"
| "sample_stringify (JStr s) = quote s"
| "sample_stringify (JArr xs) = ''['' @ join '','' (map sample_stringify xs) @ '']''"
| "sample_stringify (JObj kvs) =
     ''{'' @ join '','' (map (\<lambda>kv. quote (fst kv) @ '':'' @ sample_stringify (snd kv)) kvs)
       @ ''}''"

text \<open>The sample runtime. Its numbers become their decimal digits, as numbers below
  \<open>10^21\<close> do; the samples hold no larger one.\<close>

definition sample_runtime :: runtime where
  "sample_runtime =
     \<lparr>json_parse = sample_parse,
      json_stringify = sample_stringify,
      uuid = (\<lambda>n. ''uuid-'' @ show_nat n),
      base64 = (\<lambda>bs. []),
      number_to_string = show_int\<rparr>"

definition chunk :: "string \<Rightarrow> event_source_chunk" where
  "chunk d = \<lparr>data = Some d, event = None, chunk_id = None\<rparr>"

definition no_options :: call_options where
  "no_options = \<lparr>topK = None, responseFormat = None, includeRawChunks = False\<rparr>"

definition ok_response :: "event_source_chunk list \<Rightarrow> fetch_response" where
  "ok_response cs = \<lparr>ok = True, status = 200, response_text = [], body = cs\<rparr>"




section \<open>Predicates of the proofs and further samples\<close>

subsection \<open>The claims as predicates\<close>

text \<open>The stream begins with its only \<open>stream-start\<close> part.\<close>

definition stream_start_leads :: "js_error + stream_part list \<Rightarrow> bool" where
  "stream_start_leads result =
     (case result of
        Inr (p # ps) \<Rightarrow> is_stream_start p \<and> \<not> list_ex is_stream_start ps
      | _ \<Rightarrow> False)"

text \<open>Every start part of the stream has its one end part.\<close>

definition starts_closed :: "js_error + stream_part list \<Rightarrow> bool" where
  "starts_closed result = (case result of Inr parts \<Rightarrow> every_start_closed parts | Inl e \<Rightarrow> True)"

text \<open>Both modes succeed and agree on text, tool calls, finish reason and usage.\<close>

definition modes_agree :: "runtime \<Rightarrow> string \<Rightarrow> call_options \<Rightarrow> fetch_response \<Rightarrow> bool" where
  "modes_agree rt modelId options response =
     (case (doStream rt options response, doGenerate rt modelId options response) of
        (Inr parts, Inr res) \<Rightarrow>
          stream_text rt parts = Some (result_text (content res))
          \<and> stream_tool_calls parts = result_tool_calls (content res)
          \<and> stream_finish parts None = Some (result_finishReason res, result_usage res)
      | _ \<Rightarrow> False)"

text \<open>The value of one header of the result of \<open>getHeaders\<close>.\<close>

definition header_of :: "js_error + headers \<Rightarrow> string \<Rightarrow> string option" where
  "header_of result k = (case result of Inl e \<Rightarrow> None | Inr h \<Rightarrow> h k)"

text \<open>The mode that \<open>getHeaders\<close> runs in: the first of its four branches that applies.\<close>

datatype auth_mode = ExplicitKey | RefreshTokenMode | EnvironmentKey | FileBased

definition auth_mode_of :: "provider_settings \<Rightarrow> auth_mode" where
  "auth_mode_of options =
     (if open_id (apiKey options) \<noteq> None then ExplicitKey
      else if open_id (refreshToken options) \<noteq> None then RefreshTokenMode
      else if useApiKey options then EnvironmentKey
      else FileBased)"

subsection \<open>Kinds of records and parts\<close>

definition is_completed :: "runtime \<Rightarrow> event_source_chunk \<Rightarrow> bool" where
  "is_completed rt c = (chunk_type rt c = Some ResponseCompleted)"

definition is_reasoning_chunk :: "runtime \<Rightarrow> event_source_chunk \<Rightarrow> bool" where
  "is_reasoning_chunk rt c =
     (chunk_type rt c = Some ReasoningSummaryTextDelta
      \<or> chunk_type rt c = Some ReasoningSummaryTextDone)"

fun is_reasoning_part :: "stream_part \<Rightarrow> bool" where
  "is_reasoning_part (ReasoningStart i) = True"
| "is_reasoning_part (ReasoningDelta i d) = True"
| "is_reasoning_part (ReasoningEnd i) = True"
| "is_reasoning_part _ = False"

text \<open>A text delta record whose delta cannot be converted to a string.\<close>

definition opaque_text_delta :: "runtime \<Rightarrow> event_source_chunk \<Rightarrow> bool" where
  "opaque_text_delta rt c =
     (case parsed_of rt c of
        None \<Rightarrow> False
      | Some parsed \<Rightarrow>
          event_type_of (get parsed ''type'') = OutputTextDelta
          \<and> \<not> convertible (or_else (get parsed ''delta'') (JStr [])))"

text \<open>A \<open>response.completed\<close> record on whose response \<open>extractUsage\<close> throws.\<close>

definition usage_fails :: "runtime \<Rightarrow> event_source_chunk \<Rightarrow> bool" where
  "usage_fails rt c =
     (case parsed_of rt c of
        None \<Rightarrow> False
      | Some parsed \<Rightarrow>
          event_type_of (get parsed ''type'') = ResponseCompleted
          \<and> isl (extractUsage (get parsed ''response'')))"

subsection \<open>Invariants\<close>

text \<open>The state of the stream against the state that \<open>lifecycle\<close> keeps: the open text
  segment, the open reasoning segment, and ids that were all drawn already.\<close>

definition stream_inv ::
  "runtime \<Rightarrow> stream_state \<Rightarrow> string option \<Rightarrow> string option \<Rightarrow> string list \<Rightarrow> bool" where
  "stream_inv rt st t r used \<longleftrightarrow>
     open_id (currentTextId st) = t \<and> open_id (currentReasoningId st) = r
     \<and> set used \<subseteq> uuid rt ` {..< uuids st}"

text \<open>Both modes hold the same two maps.\<close>

definition sim :: "stream_state \<Rightarrow> generate_state \<Rightarrow> bool" where
  "sim st g \<longleftrightarrow> toolCallInfo st = toolCallInfo g \<and> functionCallArgs st = functionCallArgs g"

text \<open>The number that a string of decimal digits stands for.\<close>

definition read_nat :: "string \<Rightarrow> nat" where
  "read_nat s = foldl (\<lambda>a c. 10 * a + (of_char c - 48)) 0 s"

subsection \<open>Further samples\<close>

definition hello_response :: fetch_response where
  "hello_response =
     ok_response [chunk text_delta_He, chunk text_delta_llo, chunk text_done, chunk completed]"

text \<open>The usage of \<open>completed_response\<close>.\<close>

definition completed_usage :: usage where
  "completed_usage =
     \<lparr>input_total = Some (JNum 5), input_noCache = None, input_cacheRead = None,
      input_cacheWrite = None, output_total = Some (JNum 2), output_text = None,
      output_reasoning = None,
      usage_raw = Some (JObj [(''input_tokens'', JNum 5), (''output_tokens'', JNum 2)])\<rparr>"

definition hello_result :: generate_result where
  "hello_result =
     \<lparr>content = [ContentText ''Hello''],
      result_finishReason = \<lparr>unified = Stop, raw_reason = JStr ''completed''\<rparr>,
      result_usage = completed_usage,
      result_warnings = [],
      response_id = Some (JStr ''resp_1''),
      response_modelId = JStr ''gpt-5''\<rparr>"

definition hello_parts :: "stream_part list" where
  "hello_parts =
     [StreamStart [], TextStart ''uuid-0'', TextDelta ''uuid-0'' (JStr ''He''),
      TextDelta ''uuid-0'' (JStr ''llo''), TextEnd ''uuid-0'',
      ResponseMetadata (Some (JStr ''resp_1'')) (Some (JStr ''gpt-5'')),
      Finish \<lparr>unified = Stop, raw_reason = JStr ''completed''\<rparr> completed_usage]"

definition thinking_response :: fetch_response where
  "thinking_response =
     ok_response [chunk reasoning_delta, chunk reasoning_done, chunk text_delta_He,
                  chunk completed]"



definition env_settings :: provider_settings where
  "env_settings =
     \<lparr>apiKey = None, refreshToken = None, useApiKey = True,
      custom_headers = [''Authorization'' \<mapsto> ''Basic abc'', ''x-trace'' \<mapsto> ''1'']\<rparr>"

definition key_settings :: provider_settings where
  "key_settings =
     \<lparr>apiKey = Some ''sk-1'', refreshToken = None, useApiKey = False,
      custom_headers = [''Authorization'' \<mapsto> ''Basic abc'', ''x-trace'' \<mapsto> ''1'']\<rparr>"

definition refresh_settings :: provider_settings where
  "refresh_settings =
     \<lparr>apiKey = None, refreshToken = Some ''rt-1'', useApiKey = False,
      custom_headers = [''Authorization'' \<mapsto> ''Basic abc'', ''x-trace'' \<mapsto> ''1'']\<rparr>"

definition file_settings :: provider_settings where
  "file_settings =
     \<lparr>apiKey = None, refreshToken = None, useApiKey = False,
      custom_headers = [''accept'' \<mapsto> ''application/json'']\<rparr>"

definition sample_session :: refresh_session where
  "sample_session =
     \<lparr>accessToken = ''at-1'', session_refreshToken = ''rt-2'', accountId = ''acct-1'',
      expiresAt = None\<rparr>"

section \<open>Usage extraction\<close>

lemma js_minus_throws:
  "js_minus a b = Inl e \<longleftrightarrow> e = TypeError \<and> \<not> (convertible a \<and> convertible b)"
  by (cases "(a, b)" rule: js_minus.cases) auto

lemma js_minus_exact:
  "exact a \<Longrightarrow> exact b \<Longrightarrow> exact (a - b) \<Longrightarrow> js_minus (JNum a) (JNum b) = Inr (Num (a - b))"
  by simp

lemma coalesce_not_null: "coalesce v None \<noteq> Some JNull"
  by (cases v rule: nullish.cases) (simp_all add: coalesce_def)

lemma derived_throws:
  assumes "p \<noteq> Some JNull" "q \<noteq> Some JNull"
  shows "isl (derived p q)
     \<longleftrightarrow> (\<exists>x y. p = Some x \<and> q = Some y \<and> \<not> (convertible x \<and> convertible y))"
proof (cases p)
  case None
  then show ?thesis by simp
next
  case ps: (Some x)
  show ?thesis
  proof (cases q)
    case None
    with ps show ?thesis by simp
  next
    case qs: (Some y)
    from assms ps qs have n: "x \<noteq> JNull" "y \<noteq> JNull" by auto
    show ?thesis
      using js_minus_throws [of x y] n unfolding ps qs
      by (cases "js_minus x y") auto
  qed
qed

lemma derived_error: "derived p q = Inl e \<Longrightarrow> e = TypeError"
proof (cases p)
  case None
  assume "derived p q = Inl e"
  with None show ?thesis by simp
next
  case ps: (Some x)
  assume d: "derived p q = Inl e"
  show ?thesis
  proof (cases q)
    case None
    with ps d show ?thesis by simp
  next
    case qs: (Some y)
    from d js_minus_throws [of x y e] show ?thesis
      unfolding ps qs by (cases "js_minus x y") (auto split: if_splits)
  qed
qed

lemma derived_None_iff:
  assumes "p \<noteq> Some JNull" "q \<noteq> Some JNull" "derived p q = Inr d"
  shows "d = None \<longleftrightarrow> p = None \<or> q = None"
proof (cases p)
  case None
  with assms show ?thesis by simp
next
  case ps: (Some x)
  show ?thesis
  proof (cases q)
    case None
    with ps assms show ?thesis by simp
  next
    case qs: (Some y)
    from assms ps qs have n: "x \<noteq> JNull" "y \<noteq> JNull" by auto
    from assms(3) n show ?thesis
      unfolding ps qs by (cases "js_minus x y") auto
  qed
qed

lemma derived_minus:
  assumes "x \<noteq> JNull" "y \<noteq> JNull" "derived (Some x) (Some y) = Inr d"
  shows "d = Some n \<longleftrightarrow> js_minus x y = Inr n"
  using assms by (cases "js_minus x y") auto

lemma derived_exact:
  "exact x \<Longrightarrow> exact y \<Longrightarrow> exact (x - y)
     \<Longrightarrow> derived (Some (JNum x)) (Some (JNum y)) = Inr (Some (Num (x - y)))"
  by simp

lemma extractUsage_unfold:
  "extractUsage response =
     (case derived (coalesce (opt_get (opt_get response ''usage'') ''input_tokens'') None)
             (coalesce (opt_get (opt_get (opt_get response ''usage'') ''input_tokens_details'')
                          ''cached_tokens'') None) of
        Inl e \<Rightarrow> Inl e
      | Inr noCache \<Rightarrow>
          (case derived (coalesce (opt_get (opt_get response ''usage'') ''output_tokens'') None)
                  (coalesce (opt_get (opt_get (opt_get response ''usage'')
                               ''output_tokens_details'') ''reasoning_tokens'') None) of
             Inl e \<Rightarrow> Inl e
           | Inr text_tokens \<Rightarrow>
               Inr \<lparr>input_total
                      = coalesce (opt_get (opt_get response ''usage'') ''input_tokens'') None,
                    input_noCache = noCache,
                    input_cacheRead
                      = coalesce (opt_get (opt_get (opt_get response ''usage'')
                                    ''input_tokens_details'') ''cached_tokens'') None,
                    input_cacheWrite = None,
                    output_total
                      = coalesce (opt_get (opt_get response ''usage'') ''output_tokens'') None,
                    output_text = text_tokens,
                    output_reasoning
                      = coalesce (opt_get (opt_get (opt_get response ''usage'')
                                    ''output_tokens_details'') ''reasoning_tokens'') None,
                    usage_raw = opt_get response ''usage''\<rparr>))"
  by (simp add: extractUsage_def Let_def)

text \<open>
  Claim C8. \<open>extractUsage\<close> fills each usage field only from what the response of the
  \<open>response.completed\<close> event carries: the two totals, the cached tokens and the reasoning
  tokens are the members of \<open>usage\<close> (absent when the member is missing or \<open>null\<close>), and
  \<open>cacheWrite\<close> is never set. The derived fields \<open>noCache\<close> and \<open>text\<close> are undefined
  exactly when one of their operands is; when both are present they are the result of the
  subtraction \<open>total - cacheRead\<close> and \<open>total - reasoning\<close>, which on integers is their
  difference as long as operands and difference are at most \<open>2^53\<close> in absolute value.
  The raw usage is the \<open>usage\<close> member itself.
  The function returns unless a subtraction throws, which happens only when both operands of
  a derived field are present and one of them cannot be converted to a primitive.
\<close>

theorem extractUsage_present_only:
  "(let usage = opt_get response ''usage'';
        inputTotal = coalesce (opt_get usage ''input_tokens'') None;
        outputTotal = coalesce (opt_get usage ''output_tokens'') None;
        cachedTokens
          = coalesce (opt_get (opt_get usage ''input_tokens_details'') ''cached_tokens'') None;
        reasoningTokens
          = coalesce (opt_get (opt_get usage ''output_tokens_details'') ''reasoning_tokens'') None
    in (isl (extractUsage response)
          \<longleftrightarrow> (\<exists>x y. inputTotal = Some x \<and> cachedTokens = Some y
                       \<and> \<not> (convertible x \<and> convertible y))
              \<or> (\<exists>x y. outputTotal = Some x \<and> reasoningTokens = Some y
                       \<and> \<not> (convertible x \<and> convertible y)))
     \<and> (\<forall>e. extractUsage response = Inl e \<longrightarrow> e = TypeError)
     \<and> (\<forall>u. extractUsage response = Inr u \<longrightarrow>
            usage_raw u = usage
          \<and> input_total u = inputTotal
          \<and> output_total u = outputTotal
          \<and> input_cacheRead u = cachedTokens
          \<and> output_reasoning u = reasoningTokens
          \<and> input_cacheWrite u = None
          \<and> (input_noCache u = None \<longleftrightarrow> input_total u = None \<or> input_cacheRead u = None)
          \<and> (output_text u = None \<longleftrightarrow> output_total u = None \<or> output_reasoning u = None)
          \<and> (\<forall>x y n. input_total u = Some x \<and> input_cacheRead u = Some y
                 \<longrightarrow> (input_noCache u = Some n \<longleftrightarrow> js_minus x y = Inr n))
          \<and> (\<forall>x y n. output_total u = Some x \<and> output_reasoning u = Some y
                 \<longrightarrow> (output_text u = Some n \<longleftrightarrow> js_minus x y = Inr n))
          \<and> (\<forall>a b. input_total u = Some (JNum a) \<and> input_cacheRead u = Some (JNum b)
                 \<and> exact a \<and> exact b \<and> exact (a - b)
                 \<longrightarrow> input_noCache u = Some (Num (a - b)))
          \<and> (\<forall>a b. output_total u = Some (JNum a) \<and> output_reasoning u = Some (JNum b)
                 \<and> exact a \<and> exact b \<and> exact (a - b)
                 \<longrightarrow> output_text u = Some (Num (a - b)))))"
proof -
  define it where "it = coalesce (opt_get (opt_get response ''usage'') ''input_tokens'') None"
  define ot where "ot = coalesce (opt_get (opt_get response ''usage'') ''output_tokens'') None"
  define ct where "ct = coalesce (opt_get (opt_get (opt_get response ''usage'')
                          ''input_tokens_details'') ''cached_tokens'') None"
  define rs where "rs = coalesce (opt_get (opt_get (opt_get response ''usage'')
                          ''output_tokens_details'') ''reasoning_tokens'') None"
  define d1 where "d1 = derived it ct"
  define d2 where "d2 = derived ot rs"
  have nn: "it \<noteq> Some JNull" "ct \<noteq> Some JNull" "ot \<noteq> Some JNull" "rs \<noteq> Some JNull"
    by (simp_all add: it_def ct_def ot_def rs_def coalesce_not_null)
  have eu: "extractUsage response =
     (case d1 of
        Inl e \<Rightarrow> Inl e
      | Inr noCache \<Rightarrow>
          (case d2 of
             Inl e \<Rightarrow> Inl e
           | Inr text_tokens \<Rightarrow>
               Inr \<lparr>input_total = it, input_noCache = noCache, input_cacheRead = ct,
                    input_cacheWrite = None, output_total = ot, output_text = text_tokens,
                    output_reasoning = rs, usage_raw = opt_get response ''usage''\<rparr>))"
    unfolding d1_def d2_def it_def ct_def ot_def rs_def by (rule extractUsage_unfold)
  have t1: "isl d1 \<longleftrightarrow> (\<exists>x y. it = Some x \<and> ct = Some y \<and> \<not> (convertible x \<and> convertible y))"
    unfolding d1_def by (rule derived_throws [OF nn(1,2)])
  have t2: "isl d2 \<longleftrightarrow> (\<exists>x y. ot = Some x \<and> rs = Some y \<and> \<not> (convertible x \<and> convertible y))"
    unfolding d2_def by (rule derived_throws [OF nn(3,4)])
  have 1: "isl (extractUsage response) \<longleftrightarrow> isl d1 \<or> isl d2"
    unfolding eu by (cases d1; cases d2) simp_all
  have 2: "\<forall>e. extractUsage response = Inl e \<longrightarrow> e = TypeError"
  proof (intro allI impI)
    fix e assume "extractUsage response = Inl e"
    then have "d1 = Inl e \<or> d2 = Inl e"
      unfolding eu by (cases d1; cases d2) simp_all
    then show "e = TypeError"
      unfolding d1_def d2_def using derived_error by blast
  qed
  have 3: "usage_raw u = opt_get response ''usage''
          \<and> input_total u = it \<and> output_total u = ot \<and> input_cacheRead u = ct
          \<and> output_reasoning u = rs \<and> input_cacheWrite u = None
          \<and> (input_noCache u = None \<longleftrightarrow> input_total u = None \<or> input_cacheRead u = None)
          \<and> (output_text u = None \<longleftrightarrow> output_total u = None \<or> output_reasoning u = None)
          \<and> (\<forall>x y n. input_total u = Some x \<and> input_cacheRead u = Some y
                 \<longrightarrow> (input_noCache u = Some n \<longleftrightarrow> js_minus x y = Inr n))
          \<and> (\<forall>x y n. output_total u = Some x \<and> output_reasoning u = Some y
                 \<longrightarrow> (output_text u = Some n \<longleftrightarrow> js_minus x y = Inr n))
          \<and> (\<forall>a b. input_total u = Some (JNum a) \<and> input_cacheRead u = Some (JNum b)
                 \<and> exact a \<and> exact b \<and> exact (a - b)
                 \<longrightarrow> input_noCache u = Some (Num (a - b)))
          \<and> (\<forall>a b. output_total u = Some (JNum a) \<and> output_reasoning u = Some (JNum b)
                 \<and> exact a \<and> exact b \<and> exact (a - b)
                 \<longrightarrow> output_text u = Some (Num (a - b)))"
    if r: "extractUsage response = Inr u" for u
  proof -
    from r obtain n t where n: "d1 = Inr n" and t: "d2 = Inr t"
      and u: "u = \<lparr>input_total = it, input_noCache = n, input_cacheRead = ct,
                    input_cacheWrite = None, output_total = ot, output_text = t,
                    output_reasoning = rs, usage_raw = opt_get response ''usage''\<rparr>"
      unfolding eu by (cases d1; cases d2) auto
    have a: "n = None \<longleftrightarrow> it = None \<or> ct = None"
      using derived_None_iff [OF nn(1,2)] n unfolding d1_def by blast
    have b: "t = None \<longleftrightarrow> ot = None \<or> rs = None"
      using derived_None_iff [OF nn(3,4)] t unfolding d2_def by blast
    have c: "n = Some (Num (x - y))"
      if "it = Some (JNum x)" "ct = Some (JNum y)" "exact x" "exact y" "exact (x - y)" for x y
      using that n derived_exact [of x y] unfolding d1_def by simp
    have d: "t = Some (Num (x - y))"
      if "ot = Some (JNum x)" "rs = Some (JNum y)" "exact x" "exact y" "exact (x - y)" for x y
      using that t derived_exact [of x y] unfolding d2_def by simp
    have e: "(n = Some k) = (js_minus x y = Inr k)" if "it = Some x" "ct = Some y" for x y k
    proof -
      from that nn have "x \<noteq> JNull" "y \<noteq> JNull" by auto
      from derived_minus [OF this] n that show ?thesis unfolding d1_def by simp
    qed
    have f: "(t = Some k) = (js_minus x y = Inr k)" if "ot = Some x" "rs = Some y" for x y k
    proof -
      from that nn have "x \<noteq> JNull" "y \<noteq> JNull" by auto
      from derived_minus [OF this] t that show ?thesis unfolding d2_def by simp
    qed
    show ?thesis
      unfolding u using a b c d e f by simp
  qed
  show ?thesis
    unfolding Let_def it_def [symmetric] ot_def [symmetric] ct_def [symmetric]
      rs_def [symmetric]
    using 1 2 3 t1 t2 by blast
qed

theorem extractUsage_present_only_witness:
  "extractUsage (Some detailed_response)
     = Inr \<lparr>input_total = Some (JNum 5), input_noCache = Some (Num 2),
            input_cacheRead = Some (JNum 3), input_cacheWrite = None,
            output_total = Some (JNum 2), output_text = Some (Num 1),
            output_reasoning = Some (JNum 1),
            usage_raw = opt_get (Some detailed_response) ''usage''\<rparr>
   \<and> input_noCache (projr (extractUsage (Some completed_response))) = None
   \<and> output_text (projr (extractUsage (Some completed_response))) = None"
proof -
  obtain u where u: "extractUsage (Some detailed_response) = Inr u"
    by (cases "extractUsage (Some detailed_response)")
       (simp_all add: extractUsage_def detailed_response_def coalesce_def Let_def exact_def)
  obtain v where v: "extractUsage (Some completed_response) = Inr v"
    by (cases "extractUsage (Some completed_response)")
       (simp_all add: extractUsage_def completed_response_def coalesce_def Let_def)
  have x: "exact 5" "exact 3" "exact (5 - 3)" "exact 2" "exact 1" "exact (2 - 1)"
    by (simp_all add: exact_def)
  have raw: "usage_raw u = opt_get (Some detailed_response) ''usage''"
    using u by (auto simp: extractUsage_def Let_def split: sum.splits)
  have d: "coalesce (opt_get (opt_get (Some detailed_response) ''usage'') ''input_tokens'') None
             = Some (JNum 5)"
    "coalesce (opt_get (opt_get (Some detailed_response) ''usage'') ''output_tokens'') None
             = Some (JNum 2)"
    "coalesce (opt_get (opt_get (opt_get (Some detailed_response) ''usage'')
         ''input_tokens_details'') ''cached_tokens'') None = Some (JNum 3)"
    "coalesce (opt_get (opt_get (opt_get (Some detailed_response) ''usage'')
         ''output_tokens_details'') ''reasoning_tokens'') None = Some (JNum 1)"
    by (simp_all add: detailed_response_def coalesce_def)
  have c: "coalesce (opt_get (opt_get (opt_get (Some completed_response) ''usage'')
         ''input_tokens_details'') ''cached_tokens'') None = None"
    "coalesce (opt_get (opt_get (opt_get (Some completed_response) ''usage'')
         ''output_tokens_details'') ''reasoning_tokens'') None = None"
    by (simp_all add: completed_response_def coalesce_def)
  from extractUsage_present_only [of "Some detailed_response"] u d x
  have "input_total u = Some (JNum 5)" "input_noCache u = Some (Num 2)"
    "input_cacheRead u = Some (JNum 3)" "input_cacheWrite u = None"
    "output_total u = Some (JNum 2)" "output_text u = Some (Num 1)"
    "output_reasoning u = Some (JNum 1)"
    unfolding Let_def by auto
  with raw have U: "u = \<lparr>input_total = Some (JNum 5), input_noCache = Some (Num 2),
            input_cacheRead = Some (JNum 3), input_cacheWrite = None,
            output_total = Some (JNum 2), output_text = Some (Num 1),
            output_reasoning = Some (JNum 1),
            usage_raw = opt_get (Some detailed_response) ''usage''\<rparr>"
    by (cases u) simp
  from extractUsage_present_only [of "Some completed_response"] v c
  have "input_noCache v = None" "output_text v = None"
    unfolding Let_def by auto
  with u v U show ?thesis by simp
qed

section \<open>Upstream request errors\<close>



lemma or_else_nullish: "nullish v \<Longrightarrow> or_else v b = b"
  by (cases v rule: nullish.cases) simp_all







section \<open>The instructions of a request\<close>

lemma no_system_function_calls: "\<not> list_ex is_system_item (assistant_function_calls rt ps)"
  by (induction rt ps rule: assistant_function_calls.induct) auto

lemma no_system_tool_outputs: "\<not> list_ex is_system_item (convert_tool_parts rt ps)"
  by (induction rt ps rule: convert_tool_parts.induct) auto

lemma foldl_convert_message:
  "foldl (convert_message rt) (sp, items) prompt = (sp', items')
     \<Longrightarrow> sp' = sp @ system_contents prompt
       \<and> (list_ex is_system_item items' \<longleftrightarrow> list_ex is_system_item items)"
proof (induction prompt arbitrary: sp items)
  case Nil
  then show ?case by simp
next
  case (Cons m ms)
  obtain sp1 items1 where step: "convert_message rt (sp, items) m = (sp1, items1)"
    by (cases "convert_message rt (sp, items) m")
  from step have one: "sp1 = sp @ system_contents [m]
      \<and> (list_ex is_system_item items1 \<longleftrightarrow> list_ex is_system_item items)"
    by (cases m)
       (auto simp: Let_def no_system_function_calls no_system_tool_outputs split: if_splits)
  from Cons.prems step have "foldl (convert_message rt) (sp1, items1) ms = (sp', items')"
    by simp
  from Cons.IH [OF this] one show ?case
    by (cases m) auto
qed

text \<open>
  Claim C5. For every conversation \<open>convertToCodexInput\<close> returns one instructions string:
  the contents of the system messages, in order, joined by a blank line, or the fixed text
  \<open>You are a helpful assistant.\<close> when the conversation has no system message. No item of
  the returned input has the system role. A conversation of the one user message \<open>hi\<close>
  gives the default instructions and one user item with one \<open>input_text\<close> part.
\<close>

theorem convertToCodexInput_instructions:
  "instructions (convertToCodexInput rt prompt)
     = (if system_contents prompt = [] then ''You are a helpful assistant.''
        else join [CHR 0x0A, CHR 0x0A] (system_contents prompt))
   \<and> \<not> list_ex is_system_item (input (convertToCodexInput rt prompt))
   \<and> convertToCodexInput rt [UserMessage [UserText ''hi'']]
       = \<lparr>instructions = ''You are a helpful assistant.'',
          input = [CodexUserMessage [InputText ''hi'']]\<rparr>"
proof -
  obtain sp items where f: "foldl (convert_message rt) ([], []) prompt = (sp, items)"
    by (cases "foldl (convert_message rt) ([], []) prompt")
  from foldl_convert_message [OF f]
  have "sp = system_contents prompt" and "\<not> list_ex is_system_item items" by auto
  with f show ?thesis
    by (simp add: convertToCodexInput_def)
qed

theorem convertToCodexInput_instructions_witness:
  "instructions (convertToCodexInput sample_runtime
      [SystemMessage ''Be brief.'', UserMessage [UserText ''hi''], SystemMessage ''Use English.''])
     = ''Be brief.'' @ [CHR 0x0A, CHR 0x0A] @ ''Use English.''
   \<and> \<not> list_ex is_system_item (input (convertToCodexInput sample_runtime
      [SystemMessage ''Be brief.'', UserMessage [UserText ''hi''], SystemMessage ''Use English.'']))"
  using convertToCodexInput_instructions [of sample_runtime
      "[SystemMessage ''Be brief.'', UserMessage [UserText ''hi''], SystemMessage ''Use English.'']"]
  by simp

section \<open>One record through \<open>transform\<close> and through the loop of \<open>doGenerate\<close>\<close>

lemma transform_no_data:
  "\<not> has_data c \<Longrightarrow> transform rt raw ws st c = ([], st)"
  by (auto simp: transform_def has_data_def split: option.splits)

lemma transform_undecodable:
  "has_data c \<Longrightarrow> parsed_of rt c = None \<Longrightarrow>
     transform rt raw ws st c = ([ErrorPart SyntaxError], st)
     \<or> transform rt raw ws st c = ([ErrorPart TypeError], st)"
  by (auto simp: transform_def has_data_def parsed_of_def split: option.splits json.splits if_splits)

lemma transform_parsed:
  "parsed_of rt c = Some parsed \<Longrightarrow>
     transform rt raw ws st c =
       ((if isFirstChunk st then [StreamStart ws] else [])
          @ (if raw then [RawPart parsed] else [])
          @ fst (stream_dispatch rt (st\<lparr>isFirstChunk := False\<rparr>) parsed
                   (event_type_of (get parsed ''type''))),
        snd (stream_dispatch rt (st\<lparr>isFirstChunk := False\<rparr>) parsed
               (event_type_of (get parsed ''type''))))"
  by (auto simp: transform_def parsed_of_def Let_def split_beta
           split: option.splits json.splits if_splits)

lemma generate_step_unparsed:
  "parsed_of rt c = None \<Longrightarrow> generate_step rt g c = g"
  by (auto simp: generate_step_def parsed_of_def split: option.splits json.splits if_splits)

lemma generate_step_parsed:
  "parsed_of rt c = Some parsed \<Longrightarrow>
     generate_step rt g c = generate_dispatch rt g parsed (event_type_of (get parsed ''type''))"
  by (auto simp: generate_step_def parsed_of_def split: option.splits json.splits if_splits)

lemma parsed_of_has_data: "parsed_of rt c = Some parsed \<Longrightarrow> has_data c"
  by (auto simp: parsed_of_def has_data_def split: option.splits if_splits)

section \<open>The \<open>stream-start\<close> part\<close>

lemma dispatch_no_stream_start:
  "\<not> list_ex is_stream_start (fst (stream_dispatch rt st parsed ty))"
  by (cases ty) (auto simp: Let_def split_beta split: option.splits sum.splits)

lemma dispatch_isFirstChunk:
  "isFirstChunk (snd (stream_dispatch rt st parsed ty)) = isFirstChunk st"
  by (cases ty) (auto simp: Let_def split_beta split: option.splits sum.splits)

lemma transform_later_no_stream_start:
  "\<not> isFirstChunk st \<Longrightarrow>
     \<not> list_ex is_stream_start (fst (transform rt raw ws st c))
     \<and> \<not> isFirstChunk (snd (transform rt raw ws st c))"
proof (cases "parsed_of rt c")
  case None
  assume nf: "\<not> isFirstChunk st"
  show ?thesis
  proof (cases "has_data c")
    case True
    from transform_undecodable [OF True None, of raw ws st] nf show ?thesis by auto
  next
    case False
    with nf show ?thesis by (simp add: transform_no_data)
  qed
next
  case (Some parsed)
  assume "\<not> isFirstChunk st"
  then show ?thesis
    by (simp add: transform_parsed [OF Some] dispatch_no_stream_start dispatch_isFirstChunk)
qed

lemma transform_all_later_no_stream_start:
  "\<not> isFirstChunk st \<Longrightarrow> \<not> list_ex is_stream_start (transform_all rt raw ws st cs)"
proof (induction cs arbitrary: st)
  case Nil
  then show ?case by simp
next
  case (Cons c cs)
  from transform_later_no_stream_start [OF Cons.prems, of rt raw ws c] Cons.IH
  show ?case by (simp add: split_beta)
qed

lemma transform_first_decodable:
  "isFirstChunk st \<Longrightarrow> parsed_of rt c = Some parsed \<Longrightarrow>
     (\<exists>out. fst (transform rt raw ws st c) = StreamStart ws # out
            \<and> \<not> list_ex is_stream_start out)
     \<and> \<not> isFirstChunk (snd (transform rt raw ws st c))"
  by (simp add: transform_parsed dispatch_no_stream_start dispatch_isFirstChunk)

lemma transform_all_undecodable:
  "\<forall>c \<in> set cs. parsed_of rt c = None \<Longrightarrow>
     list_all is_error_part (transform_all rt raw ws st cs)
     \<and> length (transform_all rt raw ws st cs) = length (filter has_data cs)
     \<and> stream_state_after rt raw ws st cs = st"
proof (induction cs)
  case Nil
  then show ?case by simp
next
  case (Cons c cs)
  then have u: "parsed_of rt c = None" by simp
  show ?case
  proof (cases "has_data c")
    case True
    from transform_undecodable [OF True u, of raw ws st] Cons True show ?thesis by auto
  next
    case False
    with Cons show ?thesis by (simp add: transform_no_data)
  qed
qed

lemma transform_all_append:
  "transform_all rt raw ws st (xs @ ys)
     = transform_all rt raw ws st xs
       @ transform_all rt raw ws (stream_state_after rt raw ws st xs) ys"
  by (induction xs arbitrary: st) (simp_all add: split_beta)

lemma stream_start_after_errors:
  assumes first: "isFirstChunk st"
      and pre: "\<forall>c \<in> set pre. parsed_of rt c = None"
      and r: "parsed_of rt r \<noteq> None"
  shows "\<exists>errs rest. transform_all rt raw ws st (pre @ r # post) = errs @ StreamStart ws # rest
           \<and> list_all is_error_part errs
           \<and> length errs = length (filter has_data pre)
           \<and> \<not> list_ex is_stream_start rest"
proof -
  from r obtain parsed where p: "parsed_of rt r = Some parsed" by auto
  let ?errs = "transform_all rt raw ws st pre"
  from transform_all_undecodable [OF pre, of raw ws st]
  have e: "list_all is_error_part ?errs" "length ?errs = length (filter has_data pre)"
    and s: "stream_state_after rt raw ws st pre = st" by auto
  from transform_first_decodable [OF first p, of raw ws]
  obtain out where o: "fst (transform rt raw ws st r) = StreamStart ws # out"
    "\<not> list_ex is_stream_start out" "\<not> isFirstChunk (snd (transform rt raw ws st r))"
    by auto
  let ?rest = "out @ transform_all rt raw ws (snd (transform rt raw ws st r)) post"
  from o transform_all_later_no_stream_start [OF o(3), of rt raw ws post]
  have "\<not> list_ex is_stream_start ?rest" by simp
  moreover have "transform_all rt raw ws st (pre @ r # post) = ?errs @ StreamStart ws # ?rest"
    using o(1) by (simp add: transform_all_append s split_beta)
  ultimately show ?thesis using e by blast
qed

text \<open>
  Where \<open>stream-start\<close> stands in a stream. It is enqueued inside the \<open>try\<close>, after
  \<open>JSON.parse\<close> and the read of \<open>type\<close>. So the record that causes it is the first one
  that has data, is not \<open>[DONE]\<close> and parses to a value other than \<open>null\<close>: the stream is
  then one \<open>error\<close> part for each earlier record with data, the \<open>stream-start\<close> part
  carrying the warnings of the request, and parts among which there is no further
  \<open>stream-start\<close>. When no record of the body parses, the stream holds \<open>error\<close> parts only
  and no \<open>stream-start\<close>.
\<close>

lemma stream_start_once:
  "ok response \<Longrightarrow>
     (\<forall>pre r post. body response = pre @ r # post
          \<and> (\<forall>c \<in> set pre. parsed_of rt c = None) \<and> parsed_of rt r \<noteq> None
        \<longrightarrow> (\<exists>errs rest.
               doStream rt options response
                 = Inr (errs @ StreamStart (buildRequestBody_warnings options) # rest)
               \<and> list_all is_error_part errs
               \<and> length errs = length (filter has_data pre)
               \<and> \<not> list_ex is_stream_start rest))
   \<and> ((\<forall>c \<in> set (body response). parsed_of rt c = None)
        \<longrightarrow> (\<exists>errs. doStream rt options response = Inr errs \<and> list_all is_error_part errs))"
proof (intro conjI allI impI)
  fix pre r post
  assume okr: "ok response"
    and h: "body response = pre @ r # post
            \<and> (\<forall>c \<in> set pre. parsed_of rt c = None) \<and> parsed_of rt r \<noteq> None"
  have "isFirstChunk stream_init" by (simp add: stream_init_def)
  from stream_start_after_errors [OF this, of pre rt r "includeRawChunks options"
         "buildRequestBody_warnings options" post] h okr
  show "\<exists>errs rest.
               doStream rt options response
                 = Inr (errs @ StreamStart (buildRequestBody_warnings options) # rest)
               \<and> list_all is_error_part errs
               \<and> length errs = length (filter has_data pre)
               \<and> \<not> list_ex is_stream_start rest"
    by (simp add: doStream_def)
next
  assume okr: "ok response" and h: "\<forall>c \<in> set (body response). parsed_of rt c = None"
  from transform_all_undecodable [OF h] okr
  show "\<exists>errs. doStream rt options response = Inr errs \<and> list_all is_error_part errs"
    by (simp add: doStream_def)
qed

lemma stream_start_once_example:
  "doStream sample_runtime no_options
      (ok_response [chunk malformed, chunk text_delta_He, chunk text_delta_llo])
    = Inr ([ErrorPart SyntaxError] @ StreamStart []
         # [TextStart ''uuid-0'', TextDelta ''uuid-0'' (JStr ''He''),
            TextDelta ''uuid-0'' (JStr ''llo'')])"
proof -
  let ?resp = "ok_response [chunk malformed, chunk text_delta_He, chunk text_delta_llo]"
  have okr: "ok ?resp" by (simp add: ok_response_def)
  have b: "body ?resp = [chunk malformed] @ chunk text_delta_He # [chunk text_delta_llo]"
    by (simp add: ok_response_def)
  have u: "\<forall>c \<in> set [chunk malformed]. parsed_of sample_runtime c = None" by code_simp
  have d: "parsed_of sample_runtime (chunk text_delta_He) \<noteq> None" by code_simp
  from stream_start_once [OF okr, of sample_runtime no_options] b u d
  obtain errs rest where
    "doStream sample_runtime no_options ?resp
       = Inr (errs @ StreamStart (buildRequestBody_warnings no_options) # rest)"
    by blast
  moreover have "doStream sample_runtime no_options ?resp
    = Inr ([ErrorPart SyntaxError] @ StreamStart []
         # [TextStart ''uuid-0'', TextDelta ''uuid-0'' (JStr ''He''),
            TextDelta ''uuid-0'' (JStr ''llo'')])"
    by code_simp
  ultimately show ?thesis by simp
qed

text \<open>
  Claim C7: one \<open>stream-start\<close> part, caused by the first record whose data is not empty
  and not \<open>[DONE]\<close>, precedes every other part of the stream. The source sets out to do
  so (\<open>// Emit stream-start on first chunk\<close>, under the flag \<open>isFirstChunk\<close>), but places
  the step inside the \<open>try\<close>, after \<open>JSON.parse\<close>. On a body whose first record has data
  that does not parse, the first record causes an \<open>error\<close> part and no \<open>stream-start\<close>;
  the \<open>stream-start\<close> part comes second in the stream, caused by the second record.
\<close>

theorem error_precedes_stream_start:
  "has_data (chunk malformed)
   \<and> doStream sample_runtime no_options (ok_response [chunk malformed, chunk text_delta_He])
       = Inr [ErrorPart SyntaxError, StreamStart [], TextStart ''uuid-0'',
              TextDelta ''uuid-0'' (JStr ''He'')]
   \<and> \<not> stream_start_leads
         (doStream sample_runtime no_options (ok_response [chunk malformed, chunk text_delta_He]))"
  by code_simp

section \<open>The life cycle of text and reasoning segments\<close>

lemma resolve_call_id_mono: "n \<le> snd (resolve_call_id rt n parsed)"
  by (simp add: resolve_call_id_def)

lemma fresh_uuid:
  "inj (uuid rt) \<Longrightarrow> set used \<subseteq> uuid rt ` {..< n} \<Longrightarrow> uuid rt n \<notin> set used"
  by (auto dest: injD)

lemma used_mono:
  "set used \<subseteq> uuid rt ` {..< n} \<Longrightarrow> n \<le> m \<Longrightarrow> set used \<subseteq> uuid rt ` {..< m}"
  by auto

lemma open_id_uuid: "\<forall>n. uuid rt n \<noteq> [] \<Longrightarrow> open_id (Some (uuid rt n)) = Some (uuid rt n)"
  by simp

lemma dispatch_lifecycle:
  assumes inj: "inj (uuid rt)" and ne: "\<forall>n. uuid rt n \<noteq> []"
      and inv: "stream_inv rt st t r used"
  shows "\<exists>t' r' used'. stream_inv rt (snd (stream_dispatch rt st parsed ty)) t' r' used'
           \<and> (\<forall>rest. lifecycle rest t' r' used'
                 \<longrightarrow> lifecycle (fst (stream_dispatch rt st parsed ty) @ rest) t r used)"
proof -
  from inv have u: "set used \<subseteq> uuid rt ` {..< uuids st}"
    and t: "open_id (currentTextId st) = t" and r: "open_id (currentReasoningId st) = r"
    by (auto simp: stream_inv_def)
  from fresh_uuid [OF inj u] have f: "uuid rt (uuids st) \<notin> set used" .
  from ne have o: "open_id (Some (uuid rt (uuids st))) = Some (uuid rt (uuids st))" by simp
  let ?id = "uuid rt (uuids st)"
  show ?thesis
  proof (cases ty)
    case OutputTextDelta
    show ?thesis
    proof (cases t)
      case None
      have "stream_inv rt (snd (stream_dispatch rt st parsed ty)) (Some ?id) (r) (?id # used)
      \<and> (\<forall>rest. lifecycle rest (Some ?id) (r) (?id # used)
            \<longrightarrow> lifecycle (fst (stream_dispatch rt st parsed ty) @ rest) t r used)"
        using OutputTextDelta None u t r f o
        by (auto simp: stream_inv_def Let_def simp del: open_id.simps)
      then show ?thesis by blast
    next
      case (Some tid)
      have "stream_inv rt (snd (stream_dispatch rt st parsed ty)) (t) (r) (used)
      \<and> (\<forall>rest. lifecycle rest (t) (r) (used)
            \<longrightarrow> lifecycle (fst (stream_dispatch rt st parsed ty) @ rest) t r used)"
        using OutputTextDelta Some u t r by (auto simp: stream_inv_def Let_def)
      then show ?thesis by blast
    qed
  next
    case OutputTextDone
    show ?thesis
    proof (cases t)
      case None
      have "stream_inv rt (snd (stream_dispatch rt st parsed ty)) (t) (r) (used)
      \<and> (\<forall>rest. lifecycle rest (t) (r) (used)
            \<longrightarrow> lifecycle (fst (stream_dispatch rt st parsed ty) @ rest) t r used)"
        using OutputTextDone None u t r by (auto simp: stream_inv_def)
      then show ?thesis by blast
    next
      case (Some tid)
      have "stream_inv rt (snd (stream_dispatch rt st parsed ty)) (None) (r) (used)
      \<and> (\<forall>rest. lifecycle rest (None) (r) (used)
            \<longrightarrow> lifecycle (fst (stream_dispatch rt st parsed ty) @ rest) t r used)"
        using OutputTextDone Some u t r by (auto simp: stream_inv_def)
      then show ?thesis by blast
    qed
  next
    case ReasoningSummaryTextDelta
    show ?thesis
    proof (cases r)
      case None
      have "stream_inv rt (snd (stream_dispatch rt st parsed ty)) (t) (Some ?id) (?id # used)
      \<and> (\<forall>rest. lifecycle rest (t) (Some ?id) (?id # used)
            \<longrightarrow> lifecycle (fst (stream_dispatch rt st parsed ty) @ rest) t r used)"
        using ReasoningSummaryTextDelta None u t r f o
        by (auto simp: stream_inv_def Let_def simp del: open_id.simps)
      then show ?thesis by blast
    next
      case (Some rid)
      have "stream_inv rt (snd (stream_dispatch rt st parsed ty)) (t) (r) (used)
      \<and> (\<forall>rest. lifecycle rest (t) (r) (used)
            \<longrightarrow> lifecycle (fst (stream_dispatch rt st parsed ty) @ rest) t r used)"
        using ReasoningSummaryTextDelta Some u t r by (auto simp: stream_inv_def Let_def)
      then show ?thesis by blast
    qed
  next
    case ReasoningSummaryTextDone
    show ?thesis
    proof (cases r)
      case None
      have "stream_inv rt (snd (stream_dispatch rt st parsed ty)) (t) (r) (used)
      \<and> (\<forall>rest. lifecycle rest (t) (r) (used)
            \<longrightarrow> lifecycle (fst (stream_dispatch rt st parsed ty) @ rest) t r used)"
        using ReasoningSummaryTextDone None u t r by (auto simp: stream_inv_def)
      then show ?thesis by blast
    next
      case (Some rid)
      have "stream_inv rt (snd (stream_dispatch rt st parsed ty)) (t) (None) (used)
      \<and> (\<forall>rest. lifecycle rest (t) (None) (used)
            \<longrightarrow> lifecycle (fst (stream_dispatch rt st parsed ty) @ rest) t r used)"
        using ReasoningSummaryTextDone Some u t r by (auto simp: stream_inv_def)
      then show ?thesis by blast
    qed
  next
    case OutputItemAdded
    have "stream_inv rt (snd (stream_dispatch rt st parsed ty)) (t) (r) (used)
      \<and> (\<forall>rest. lifecycle rest (t) (r) (used)
            \<longrightarrow> lifecycle (fst (stream_dispatch rt st parsed ty) @ rest) t r used)"
      using OutputItemAdded u t r by (auto simp: stream_inv_def Let_def split: option.splits)
    then show ?thesis by blast
  next
    case FunctionCallArgumentsDelta
    have "stream_inv rt (snd (stream_dispatch rt st parsed ty)) (t) (r) (used)
      \<and> (\<forall>rest. lifecycle rest (t) (r) (used)
            \<longrightarrow> lifecycle (fst (stream_dispatch rt st parsed ty) @ rest) t r used)"
      using FunctionCallArgumentsDelta u t r
      by (auto simp: stream_inv_def Let_def split: option.splits)
    then show ?thesis by blast
  next
    case FunctionCallArgumentsDone
    from used_mono [OF u resolve_call_id_mono [of "uuids st" rt parsed]]
    have "set used \<subseteq> uuid rt ` {..< snd (resolve_call_id rt (uuids st) parsed)}" .
    then have "stream_inv rt (snd (stream_dispatch rt st parsed ty)) (t) (r) (used)
      \<and> (\<forall>rest. lifecycle rest (t) (r) (used)
            \<longrightarrow> lifecycle (fst (stream_dispatch rt st parsed ty) @ rest) t r used)"
      using FunctionCallArgumentsDone t r
      by (auto simp: stream_inv_def Let_def split_beta split: option.splits)
    then show ?thesis by blast
  next
    case ResponseCompleted
    have "stream_inv rt (snd (stream_dispatch rt st parsed ty)) (None) (None) (used)
      \<and> (\<forall>rest. lifecycle rest (None) (None) (used)
            \<longrightarrow> lifecycle (fst (stream_dispatch rt st parsed ty) @ rest) t r used)"
      using ResponseCompleted u t r
      by (auto simp: stream_inv_def Let_def split: option.splits sum.splits)
    then show ?thesis by blast
  next
    case OtherType
    have "stream_inv rt (snd (stream_dispatch rt st parsed ty)) (t) (r) (used)
      \<and> (\<forall>rest. lifecycle rest (t) (r) (used)
            \<longrightarrow> lifecycle (fst (stream_dispatch rt st parsed ty) @ rest) t r used)"
      using OtherType u t r by (auto simp: stream_inv_def)
    then show ?thesis by blast
  qed
qed

lemma transform_lifecycle:
  assumes inj: "inj (uuid rt)" and ne: "\<forall>n. uuid rt n \<noteq> []"
      and inv: "stream_inv rt st t r used"
  shows "\<exists>t' r' used'. stream_inv rt (snd (transform rt raw ws st c)) t' r' used'
           \<and> (\<forall>rest. lifecycle rest t' r' used'
                 \<longrightarrow> lifecycle (fst (transform rt raw ws st c) @ rest) t r used)"
proof (cases "parsed_of rt c")
  case None
  show ?thesis
  proof (cases "has_data c")
    case True
    from transform_undecodable [OF True None, of raw ws st]
    have "stream_inv rt (snd (transform rt raw ws st c)) t r used
           \<and> (\<forall>rest. lifecycle rest t r used
                 \<longrightarrow> lifecycle (fst (transform rt raw ws st c) @ rest) t r used)"
      using inv by auto
    then show ?thesis by blast
  next
    case False
    have "stream_inv rt (snd (transform rt raw ws st c)) t r used
           \<and> (\<forall>rest. lifecycle rest t r used
                 \<longrightarrow> lifecycle (fst (transform rt raw ws st c) @ rest) t r used)"
      using inv False by (simp add: transform_no_data)
    then show ?thesis by blast
  qed
next
  case (Some parsed)
  let ?st = "st\<lparr>isFirstChunk := False\<rparr>"
  from inv have "stream_inv rt ?st t r used" by (simp add: stream_inv_def)
  from dispatch_lifecycle [OF inj ne this, of parsed "event_type_of (get parsed ''type'')"]
  show ?thesis by (auto simp: transform_parsed [OF Some])
qed

lemma transform_all_lifecycle:
  "inj (uuid rt) \<Longrightarrow> \<forall>n. uuid rt n \<noteq> [] \<Longrightarrow> stream_inv rt st t r used
     \<Longrightarrow> lifecycle (transform_all rt raw ws st cs) t r used"
proof (induction cs arbitrary: st t r used)
  case Nil
  then show ?case by simp
next
  case (Cons c cs)
  from transform_lifecycle [OF Cons.prems, where raw = raw and ws = ws and c = c]
  obtain t' r' used' where
    i: "stream_inv rt (snd (transform rt raw ws st c)) t' r' used'"
    and l: "\<forall>rest. lifecycle rest t' r' used'
                 \<longrightarrow> lifecycle (fst (transform rt raw ws st c) @ rest) t r used"
    by blast
  from Cons.IH [OF Cons.prems(1,2) i] l
  show ?case by (simp add: split_beta)
qed

lemma lifecycle_no_text_end:
  "lifecycle ps t r used \<Longrightarrow> i \<in> set used \<Longrightarrow> t \<noteq> Some i
     \<Longrightarrow> filter (closes (TextStart i)) ps = []"
proof (induction ps arbitrary: t r used)
  case Nil
  then show ?case by simp
next
  case (Cons p ps)
  show ?case
  proof (cases p)
    case (TextStart k)
    with Cons.prems have "lifecycle ps (Some k) r (k # used)" "i \<in> set (k # used)" "k \<noteq> i"
      by auto
    from Cons.IH [OF this(1,2)] this(3) TextStart show ?thesis by simp
  next
    case (ReasoningStart k)
    with Cons.prems have "lifecycle ps t (Some k) (k # used)" "i \<in> set (k # used)"
      by auto
    from Cons.IH [OF this Cons.prems(3)] ReasoningStart show ?thesis by simp
  qed (use Cons in auto)
qed

lemma lifecycle_no_reasoning_end:
  "lifecycle ps t r used \<Longrightarrow> i \<in> set used \<Longrightarrow> r \<noteq> Some i
     \<Longrightarrow> filter (closes (ReasoningStart i)) ps = []"
proof (induction ps arbitrary: t r used)
  case Nil
  then show ?case by simp
next
  case (Cons p ps)
  show ?case
  proof (cases p)
    case (TextStart k)
    with Cons.prems have "lifecycle ps (Some k) r (k # used)" "i \<in> set (k # used)"
      by auto
    from Cons.IH [OF this Cons.prems(3)] TextStart show ?thesis by simp
  next
    case (ReasoningStart k)
    with Cons.prems have "lifecycle ps t (Some k) (k # used)" "i \<in> set (k # used)" "k \<noteq> i"
      by auto
    from Cons.IH [OF this(1,2)] this(3) ReasoningStart show ?thesis by simp
  qed (use Cons in auto)
qed

lemma filter_takeWhile_empty: "filter P xs = [] \<Longrightarrow> filter P (takeWhile Q xs) = []"
  by (induction xs) (auto split: if_splits)

lemma lifecycle_text_closed_once:
  "lifecycle ps (Some i) r used \<Longrightarrow> i \<in> set used \<Longrightarrow> list_ex is_finish ps
     \<Longrightarrow> ends_before_finish (TextStart i) ps = 1"
proof (induction ps arbitrary: r used)
  case Nil
  then show ?case by simp
next
  case (Cons p ps)
  show ?case
  proof (cases p)
    case (TextEnd j)
    with Cons.prems have "j = i" and "lifecycle ps None r used" by auto
    from lifecycle_no_text_end [OF this(2) Cons.prems(2)]
    have "filter (closes (TextStart i)) ps = []" by simp
    from filter_takeWhile_empty [OF this] TextEnd \<open>j = i\<close>
    show ?thesis by (simp add: ends_before_finish_def)
  qed (use Cons in \<open>auto simp: ends_before_finish_def\<close>)
qed

lemma lifecycle_reasoning_closed_once:
  "lifecycle ps t (Some i) used \<Longrightarrow> i \<in> set used \<Longrightarrow> list_ex is_finish ps
     \<Longrightarrow> ends_before_finish (ReasoningStart i) ps = 1"
proof (induction ps arbitrary: t used)
  case Nil
  then show ?case by simp
next
  case (Cons p ps)
  show ?case
  proof (cases p)
    case (ReasoningEnd j)
    with Cons.prems have "j = i" and "lifecycle ps t None used" by auto
    from lifecycle_no_reasoning_end [OF this(2) Cons.prems(2)]
    have "filter (closes (ReasoningStart i)) ps = []" by simp
    from filter_takeWhile_empty [OF this] ReasoningEnd \<open>j = i\<close>
    show ?thesis by (simp add: ends_before_finish_def)
  qed (use Cons in \<open>auto simp: ends_before_finish_def\<close>)
qed

lemma lifecycle_segments_closed:
  "lifecycle ps t r used \<Longrightarrow> segments_closed_at_finish ps"
proof (induction ps arbitrary: t r used)
  case Nil
  then show ?case by simp
next
  case (Cons p ps)
  show ?case
  proof (cases p)
    case (TextStart i)
    with Cons.prems have l: "lifecycle ps (Some i) r (i # used)" by simp
    from lifecycle_text_closed_once [OF l] Cons.IH [OF l] TextStart show ?thesis by simp
  next
    case (ReasoningStart i)
    with Cons.prems have l: "lifecycle ps t (Some i) (i # used)" by simp
    from lifecycle_reasoning_closed_once [OF l] Cons.IH [OF l] ReasoningStart
    show ?thesis by simp
  qed (use Cons in auto)
qed

text \<open>
  Claim C2, as the code has it. When the identifiers drawn are distinct and not empty, the
  parts of every stream follow the life cycle of \<open>lifecycle\<close>: a \<open>text-start\<close> or
  \<open>reasoning-start\<close> opens a segment under a fresh id while none of its kind is open, a
  delta or an end names the open segment, and at a \<open>finish\<close> part no segment is open. Hence
  every \<open>text-start\<close> and \<open>reasoning-start\<close> that a \<open>finish\<close> follows has exactly one
  matching end before it. Nothing is said of a stream that ends without
  \<open>response.completed\<close>, nor of \<open>tool-input-start\<close>, which only a
  \<open>function_call_arguments.done\<close> record of the item closes.
\<close>

theorem segments_closed_before_finish:
  "inj (uuid rt) \<Longrightarrow> \<forall>n. uuid rt n \<noteq> [] \<Longrightarrow> doStream rt options response = Inr parts
     \<Longrightarrow> lifecycle parts None None [] \<and> segments_closed_at_finish parts"
proof -
  assume inj: "inj (uuid rt)" and ne: "\<forall>n. uuid rt n \<noteq> []"
    and d: "doStream rt options response = Inr parts"
  have "stream_inv rt stream_init None None []"
    by (simp add: stream_inv_def stream_init_def)
  from transform_all_lifecycle [OF inj ne this] d
  have "lifecycle parts None None []"
    by (auto simp: doStream_def split: if_splits)
  with lifecycle_segments_closed show ?thesis by blast
qed

subsection \<open>The sample identifiers are distinct\<close>

lemma read_show_nat: "read_nat (show_nat n) = n"
proof (induction n rule: show_nat.induct)
  case (1 n)
  show ?case
  proof (cases "n < 10")
    case True
    then show ?thesis by (subst show_nat.simps) (simp add: read_nat_def)
  next
    case False
    with 1 have "read_nat (show_nat (n div 10)) = n div 10" by simp
    moreover have "n mod 10 < 10" by simp
    ultimately show ?thesis using False
      by (subst show_nat.simps) (simp add: read_nat_def)
  qed
qed

lemma show_nat_nonempty: "show_nat n \<noteq> []"
  by (subst show_nat.simps) simp

lemma sample_uuid_inj: "inj (uuid sample_runtime)"
proof (rule injI)
  fix x y assume "uuid sample_runtime x = uuid sample_runtime y"
  then have "show_nat x = show_nat y" by (simp add: sample_runtime_def)
  then have "read_nat (show_nat x) = read_nat (show_nat y)" by simp
  then show "x = y" by (simp add: read_show_nat)
qed

lemma sample_uuid_nonempty: "\<forall>n. uuid sample_runtime n \<noteq> []"
  by (simp add: sample_runtime_def)

theorem segments_closed_before_finish_witness:
  "lifecycle
     [StreamStart [], TextStart ''uuid-0'', TextDelta ''uuid-0'' (JStr ''He''),
      ReasoningStart ''uuid-1'', ReasoningDelta ''uuid-1'' (JStr ''hm''),
      TextEnd ''uuid-0'', ReasoningEnd ''uuid-1'',
      ResponseMetadata (Some (JStr ''resp_1'')) (Some (JStr ''gpt-5'')),
      Finish (mapFinishReason (JStr ''completed'')) completed_usage]
     None None []
   \<and> segments_closed_at_finish
     [StreamStart [], TextStart ''uuid-0'', TextDelta ''uuid-0'' (JStr ''He''),
      ReasoningStart ''uuid-1'', ReasoningDelta ''uuid-1'' (JStr ''hm''),
      TextEnd ''uuid-0'', ReasoningEnd ''uuid-1'',
      ResponseMetadata (Some (JStr ''resp_1'')) (Some (JStr ''gpt-5'')),
      Finish (mapFinishReason (JStr ''completed'')) completed_usage]"
proof -
  have d: "doStream sample_runtime no_options
             (ok_response [chunk text_delta_He, chunk reasoning_delta, chunk completed])
    = Inr [StreamStart [], TextStart ''uuid-0'', TextDelta ''uuid-0'' (JStr ''He''),
      ReasoningStart ''uuid-1'', ReasoningDelta ''uuid-1'' (JStr ''hm''),
      TextEnd ''uuid-0'', ReasoningEnd ''uuid-1'',
      ResponseMetadata (Some (JStr ''resp_1'')) (Some (JStr ''gpt-5'')),
      Finish (mapFinishReason (JStr ''completed'')) completed_usage]"
    by code_simp
  from segments_closed_before_finish [OF sample_uuid_inj sample_uuid_nonempty d]
  show ?thesis .
qed

text \<open>
  Claim C2 as stated fails twice: a body that ends after a text delta leaves \<open>text-start\<close>
  without an end, and \<open>response.completed\<close> does not close a \<open>tool-input-start\<close>.
\<close>

theorem start_without_end_counterexample:
  "doStream sample_runtime no_options (ok_response [chunk text_delta_He])
       = Inr [StreamStart [], TextStart ''uuid-0'', TextDelta ''uuid-0'' (JStr ''He'')]
   \<and> \<not> starts_closed (doStream sample_runtime no_options (ok_response [chunk text_delta_He]))
   \<and> doStream sample_runtime no_options (ok_response [chunk item_added, chunk completed])
       = Inr [StreamStart [], ToolInputStart (JStr ''fc_1'') (JStr ''getWeather''),
              ResponseMetadata (Some (JStr ''resp_1'')) (Some (JStr ''gpt-5'')),
              Finish (mapFinishReason (JStr ''completed'')) completed_usage]
   \<and> \<not> starts_closed
         (doStream sample_runtime no_options (ok_response [chunk item_added, chunk completed]))"
  by code_simp

section \<open>Streaming and buffered mode on the same records\<close>

lemma stream_text_append:
  "stream_text rt (xs @ ys) =
     (case stream_text rt xs of
        None \<Rightarrow> None
      | Some a \<Rightarrow> (case stream_text rt ys of None \<Rightarrow> None | Some b \<Rightarrow> Some (a @ b)))"
  by (induction rt xs rule: stream_text.induct) (auto split: option.splits)

lemma stream_tool_calls_append:
  "stream_tool_calls (xs @ ys) = stream_tool_calls xs @ stream_tool_calls ys"
  by (induction xs rule: stream_tool_calls.induct) auto

lemma stream_finish_append:
  "stream_finish (xs @ ys) acc = stream_finish ys (stream_finish xs acc)"
  by (induction xs acc rule: stream_finish.induct) auto

lemma dispatch_sim:
  assumes "sim st g"
  shows "sim (snd (stream_dispatch rt st parsed ty)) (generate_dispatch rt g parsed ty)"
  using assms
  by (cases ty) (auto simp: sim_def Let_def split_beta split: option.splits sum.splits)

lemma dispatch_text:
  assumes "\<not> (ty = OutputTextDelta
             \<and> \<not> convertible (or_else (get parsed ''delta'') (JStr [])))"
  shows "\<exists>t. stream_text rt (fst (stream_dispatch rt st parsed ty)) = Some t
           \<and> accumulatedText (generate_dispatch rt g parsed ty) = accumulatedText g @ t"
  using assms
  by (cases ty)
     (auto simp: Let_def split_beta js_to_string_def split: option.splits sum.splits)

lemma dispatch_tool_calls_modulo_id:
  assumes "sim st g"
  shows "map name_and_input (toolCalls (generate_dispatch rt g parsed ty))
     = map name_and_input (toolCalls g)
       @ map name_and_input (stream_tool_calls (fst (stream_dispatch rt st parsed ty)))"
  using assms
  by (cases ty) (auto simp: sim_def Let_def split_beta split: option.splits sum.splits)

lemma resolve_call_id_fixed:
  "\<not> (nullish (get parsed ''call_id'') \<and> nullish (get parsed ''item_id''))
     \<Longrightarrow> fst (resolve_call_id rt n parsed) = fst (resolve_call_id rt m parsed)"
  by (auto simp: resolve_call_id_def)

lemma dispatch_tool_calls:
  assumes "sim st g"
      and "\<not> (ty = FunctionCallArgumentsDone
             \<and> nullish (get parsed ''call_id'') \<and> nullish (get parsed ''item_id''))"
  shows "toolCalls (generate_dispatch rt g parsed ty)
     = toolCalls g @ stream_tool_calls (fst (stream_dispatch rt st parsed ty))"
proof (cases ty)
  case FunctionCallArgumentsDone
  with assms(2) have "fst (resolve_call_id rt (uuids g) parsed)
                    = fst (resolve_call_id rt (uuids st) parsed)"
    by (intro resolve_call_id_fixed) simp
  with assms(1) FunctionCallArgumentsDone show ?thesis
    by (auto simp: sim_def Let_def split_beta split: option.splits)
qed (use assms in \<open>auto simp: sim_def Let_def split_beta split: option.splits sum.splits\<close>)

lemma dispatch_finish_completed:
  "ty = ResponseCompleted \<Longrightarrow> \<not> isl (extractUsage (get parsed ''response'')) \<Longrightarrow>
     stream_finish (fst (stream_dispatch rt st parsed ty)) acc
       = Some (finishReason (generate_dispatch rt g parsed ty),
               gen_usage (generate_dispatch rt g parsed ty))"
  by (auto simp: Let_def stream_finish_append split: option.splits sum.splits)

lemma dispatch_finish_other:
  "ty \<noteq> ResponseCompleted \<Longrightarrow>
     stream_finish (fst (stream_dispatch rt st parsed ty)) acc = acc
     \<and> finishReason (generate_dispatch rt g parsed ty) = finishReason g
     \<and> gen_usage (generate_dispatch rt g parsed ty) = gen_usage g"
  by (cases ty) (auto simp: Let_def split_beta split: option.splits)

lemma result_tool_calls_append:
  "result_tool_calls (xs @ ys) = result_tool_calls xs @ result_tool_calls ys"
  by (induction xs rule: result_tool_calls.induct) auto

lemma result_text_append: "result_text (xs @ ys) = result_text xs @ result_text ys"
  by (induction xs rule: result_text.induct) auto

lemma dispatch_only_tool_calls:
  "result_tool_calls (toolCalls g) = toolCalls g \<and> result_text (toolCalls g) = []
     \<Longrightarrow> result_tool_calls (toolCalls (generate_dispatch rt g parsed ty))
           = toolCalls (generate_dispatch rt g parsed ty)
         \<and> result_text (toolCalls (generate_dispatch rt g parsed ty)) = []"
  by (cases ty)
     (auto simp: Let_def split_beta result_tool_calls_append result_text_append
           split: option.splits sum.splits)

lemma generate_all_only_tool_calls:
  "result_tool_calls (toolCalls g) = toolCalls g \<and> result_text (toolCalls g) = []
     \<Longrightarrow> result_tool_calls (toolCalls (generate_all rt g cs)) = toolCalls (generate_all rt g cs)
         \<and> result_text (toolCalls (generate_all rt g cs)) = []"
proof (induction cs arbitrary: g)
  case Nil
  then show ?case by simp
next
  case (Cons c cs)
  have "result_tool_calls (toolCalls (generate_step rt g c)) = toolCalls (generate_step rt g c)
         \<and> result_text (toolCalls (generate_step rt g c)) = []"
  proof (cases "parsed_of rt c")
    case None
    with Cons.prems show ?thesis by (simp add: generate_step_unparsed)
  next
    case (Some parsed)
    with dispatch_only_tool_calls [OF Cons.prems] show ?thesis
      by (simp add: generate_step_parsed)
  qed
  from Cons.IH [OF this] show ?case by simp
qed

lemma step_modes:
  assumes s: "sim st g"
  shows "sim (snd (transform rt raw ws st c)) (generate_step rt g c)
    \<and> (\<not> opaque_text_delta rt c \<longrightarrow>
         (\<exists>t. stream_text rt (fst (transform rt raw ws st c)) = Some t
               \<and> accumulatedText (generate_step rt g c) = accumulatedText g @ t))
    \<and> map name_and_input (toolCalls (generate_step rt g c))
        = map name_and_input (toolCalls g)
          @ map name_and_input (stream_tool_calls (fst (transform rt raw ws st c)))
    \<and> (\<not> draws_call_id rt c \<longrightarrow>
         toolCalls (generate_step rt g c)
           = toolCalls g @ stream_tool_calls (fst (transform rt raw ws st c)))
    \<and> (is_completed rt c \<and> \<not> usage_fails rt c \<longrightarrow>
         stream_finish (fst (transform rt raw ws st c)) acc
           = Some (finishReason (generate_step rt g c), gen_usage (generate_step rt g c)))
    \<and> (\<not> is_completed rt c \<longrightarrow>
         stream_finish (fst (transform rt raw ws st c)) acc = acc
         \<and> finishReason (generate_step rt g c) = finishReason g
         \<and> gen_usage (generate_step rt g c) = gen_usage g)"
proof (cases "parsed_of rt c")
  case None
  have nc: "\<not> is_completed rt c" using None by (simp add: is_completed_def chunk_type_def)
  show ?thesis
  proof (cases "has_data c")
    case True
    from transform_undecodable [OF True None, of raw ws st] s nc show ?thesis
      by (auto simp: generate_step_unparsed [OF None])
  next
    case False
    with s nc show ?thesis
      by (simp add: transform_no_data generate_step_unparsed [OF None])
  qed
next
  case (Some parsed)
  let ?ty = "event_type_of (get parsed ''type'')"
  let ?st = "st\<lparr>isFirstChunk := False\<rparr>"
  from s have s': "sim ?st g" by (simp add: sim_def)
  have pre_text: "stream_text rt ((if isFirstChunk st then [StreamStart ws] else [])
          @ (if raw then [RawPart parsed] else []) @ xs) = stream_text rt xs" for xs
    by simp
  have pre_calls: "stream_tool_calls ((if isFirstChunk st then [StreamStart ws] else [])
          @ (if raw then [RawPart parsed] else []) @ xs) = stream_tool_calls xs" for xs
    by simp
  have pre_finish: "stream_finish ((if isFirstChunk st then [StreamStart ws] else [])
          @ (if raw then [RawPart parsed] else []) @ xs) acc = stream_finish xs acc" for xs
    by simp
  have d: "draws_call_id rt c \<longleftrightarrow> ?ty = FunctionCallArgumentsDone
           \<and> nullish (get parsed ''call_id'') \<and> nullish (get parsed ''item_id'')"
    using Some by (simp add: draws_call_id_def)
  have comp: "is_completed rt c \<longleftrightarrow> ?ty = ResponseCompleted"
    using Some by (simp add: is_completed_def chunk_type_def)
  have op: "opaque_text_delta rt c \<longleftrightarrow> ?ty = OutputTextDelta
           \<and> \<not> convertible (or_else (get parsed ''delta'') (JStr []))"
    using Some by (simp add: opaque_text_delta_def)
  have uf: "usage_fails rt c \<longleftrightarrow> ?ty = ResponseCompleted
           \<and> isl (extractUsage (get parsed ''response''))"
    using Some by (simp add: usage_fails_def)
  have 1: "sim (snd (transform rt raw ws st c)) (generate_step rt g c)"
    using dispatch_sim [OF s', of rt parsed ?ty]
    by (simp add: transform_parsed [OF Some] generate_step_parsed [OF Some])
  have 2: "\<not> opaque_text_delta rt c \<longrightarrow>
         (\<exists>t. stream_text rt (fst (transform rt raw ws st c)) = Some t
               \<and> accumulatedText (generate_step rt g c) = accumulatedText g @ t)"
    using dispatch_text [of ?ty parsed rt ?st g] op
    by (simp only: transform_parsed [OF Some] generate_step_parsed [OF Some] fst_conv pre_text)
       blast
  have 3: "map name_and_input (toolCalls (generate_step rt g c))
        = map name_and_input (toolCalls g)
          @ map name_and_input (stream_tool_calls (fst (transform rt raw ws st c)))"
    using dispatch_tool_calls_modulo_id [OF s', of rt parsed ?ty]
    by (simp only: transform_parsed [OF Some] generate_step_parsed [OF Some] fst_conv pre_calls)
  have 4: "\<not> draws_call_id rt c \<longrightarrow>
         toolCalls (generate_step rt g c)
           = toolCalls g @ stream_tool_calls (fst (transform rt raw ws st c))"
    using dispatch_tool_calls [OF s', of ?ty parsed rt] d
    by (simp only: transform_parsed [OF Some] generate_step_parsed [OF Some] fst_conv pre_calls)
       blast
  have 5: "is_completed rt c \<and> \<not> usage_fails rt c \<longrightarrow>
         stream_finish (fst (transform rt raw ws st c)) acc
           = Some (finishReason (generate_step rt g c), gen_usage (generate_step rt g c))"
  proof (intro impI)
    assume "is_completed rt c \<and> \<not> usage_fails rt c"
    with comp uf have ty: "?ty = ResponseCompleted"
      and nu: "\<not> isl (extractUsage (get parsed ''response''))" by blast+
    from dispatch_finish_completed [OF ty nu, of rt ?st acc g]
    show "stream_finish (fst (transform rt raw ws st c)) acc
           = Some (finishReason (generate_step rt g c), gen_usage (generate_step rt g c))"
      by (simp only: transform_parsed [OF Some] generate_step_parsed [OF Some] fst_conv
            pre_finish)
  qed
  have 6: "\<not> is_completed rt c \<longrightarrow>
         stream_finish (fst (transform rt raw ws st c)) acc = acc
         \<and> finishReason (generate_step rt g c) = finishReason g
         \<and> gen_usage (generate_step rt g c) = gen_usage g"
    using dispatch_finish_other [of ?ty rt ?st parsed acc g] comp
    by (simp only: transform_parsed [OF Some] generate_step_parsed [OF Some] fst_conv pre_finish)
       blast
  from 1 2 3 4 5 6 show ?thesis by blast
qed

lemma all_modes:
  "sim st g \<Longrightarrow>
     ((\<forall>c \<in> set cs. \<not> opaque_text_delta rt c) \<longrightarrow>
        (\<exists>t. stream_text rt (transform_all rt raw ws st cs) = Some t
              \<and> accumulatedText (generate_all rt g cs) = accumulatedText g @ t))
   \<and> map name_and_input (toolCalls (generate_all rt g cs))
       = map name_and_input (toolCalls g)
         @ map name_and_input (stream_tool_calls (transform_all rt raw ws st cs))
   \<and> ((\<forall>c \<in> set cs. \<not> draws_call_id rt c) \<longrightarrow>
        toolCalls (generate_all rt g cs)
          = toolCalls g @ stream_tool_calls (transform_all rt raw ws st cs))
   \<and> (list_ex (is_completed rt) cs \<and> (\<forall>c \<in> set cs. \<not> usage_fails rt c) \<longrightarrow>
        stream_finish (transform_all rt raw ws st cs) acc
          = Some (finishReason (generate_all rt g cs), gen_usage (generate_all rt g cs)))
   \<and> (\<not> list_ex (is_completed rt) cs \<longrightarrow>
        stream_finish (transform_all rt raw ws st cs) acc = acc
        \<and> finishReason (generate_all rt g cs) = finishReason g
        \<and> gen_usage (generate_all rt g cs) = gen_usage g)"
proof (induction cs arbitrary: st g acc)
  case Nil
  then show ?case by simp
next
  case (Cons c cs)
  let ?out = "fst (transform rt raw ws st c)"
  let ?st = "snd (transform rt raw ws st c)"
  let ?g = "generate_step rt g c"
  let ?acc = "stream_finish ?out acc"
  let ?rest = "transform_all rt raw ws ?st cs"
  note step = step_modes [OF Cons.prems, of rt raw ws c acc]
  from step have s: "sim ?st ?g" by blast
  note ih = Cons.IH [OF s, of ?acc]
  have ta: "transform_all rt raw ws st (c # cs) = ?out @ ?rest"
    by (simp add: split_beta)
  have ga: "generate_all rt g (c # cs) = generate_all rt ?g cs"
    by simp
  have 1: "(\<forall>c \<in> set (c # cs). \<not> opaque_text_delta rt c) \<longrightarrow>
        (\<exists>t. stream_text rt (transform_all rt raw ws st (c # cs)) = Some t
              \<and> accumulatedText (generate_all rt g (c # cs)) = accumulatedText g @ t)"
  proof (intro impI)
    assume a: "\<forall>c \<in> set (c # cs). \<not> opaque_text_delta rt c"
    then have a1: "\<not> opaque_text_delta rt c"
      and a2: "\<forall>c \<in> set cs. \<not> opaque_text_delta rt c" by simp_all
    from step a1 obtain t where t: "stream_text rt ?out = Some t"
      "accumulatedText ?g = accumulatedText g @ t" by blast
    from ih a2 obtain t' where t': "stream_text rt ?rest = Some t'"
      "accumulatedText (generate_all rt ?g cs) = accumulatedText ?g @ t'" by blast
    have "stream_text rt (?out @ ?rest) = Some (t @ t')"
      by (simp add: stream_text_append t(1) t'(1))
    moreover have "accumulatedText (generate_all rt ?g cs) = accumulatedText g @ t @ t'"
      by (simp add: t(2) t'(2))
    ultimately show "\<exists>t. stream_text rt (transform_all rt raw ws st (c # cs)) = Some t
              \<and> accumulatedText (generate_all rt g (c # cs)) = accumulatedText g @ t"
      unfolding ta ga by blast
  qed
  have 2: "map name_and_input (toolCalls (generate_all rt g (c # cs)))
       = map name_and_input (toolCalls g)
         @ map name_and_input (stream_tool_calls (transform_all rt raw ws st (c # cs)))"
    using step ih by (simp add: ta stream_tool_calls_append del: transform_all.simps)
  have 3: "(\<forall>c \<in> set (c # cs). \<not> draws_call_id rt c) \<longrightarrow>
        toolCalls (generate_all rt g (c # cs))
          = toolCalls g @ stream_tool_calls (transform_all rt raw ws st (c # cs))"
    using step ih by (simp add: ta stream_tool_calls_append del: transform_all.simps)
  have 4: "list_ex (is_completed rt) (c # cs) \<and> (\<forall>c \<in> set (c # cs). \<not> usage_fails rt c) \<longrightarrow>
        stream_finish (transform_all rt raw ws st (c # cs)) acc
          = Some (finishReason (generate_all rt g (c # cs)),
                  gen_usage (generate_all rt g (c # cs)))"
  proof (intro impI)
    assume a: "list_ex (is_completed rt) (c # cs) \<and> (\<forall>c \<in> set (c # cs). \<not> usage_fails rt c)"
    then have a1: "\<not> usage_fails rt c" and a2: "\<forall>c \<in> set cs. \<not> usage_fails rt c"
      by simp_all
    show "stream_finish (transform_all rt raw ws st (c # cs)) acc
          = Some (finishReason (generate_all rt g (c # cs)),
                  gen_usage (generate_all rt g (c # cs)))"
    proof (cases "list_ex (is_completed rt) cs")
      case True
      with ih a2 have "stream_finish ?rest ?acc
          = Some (finishReason (generate_all rt ?g cs), gen_usage (generate_all rt ?g cs))"
        by blast
      then show ?thesis unfolding ta ga by (simp add: stream_finish_append)
    next
      case False
      with a have ic: "is_completed rt c" by simp
      from step ic a1 have e: "?acc = Some (finishReason ?g, gen_usage ?g)" by blast
      from ih False have "stream_finish ?rest ?acc = ?acc
          \<and> finishReason (generate_all rt ?g cs) = finishReason ?g
          \<and> gen_usage (generate_all rt ?g cs) = gen_usage ?g"
        by blast
      with e show ?thesis unfolding ta ga by (simp add: stream_finish_append)
    qed
  qed
  have 5: "\<not> list_ex (is_completed rt) (c # cs) \<longrightarrow>
        stream_finish (transform_all rt raw ws st (c # cs)) acc = acc
        \<and> finishReason (generate_all rt g (c # cs)) = finishReason g
        \<and> gen_usage (generate_all rt g (c # cs)) = gen_usage g"
  proof (intro impI)
    assume "\<not> list_ex (is_completed rt) (c # cs)"
    then have n1: "\<not> is_completed rt c" and n2: "\<not> list_ex (is_completed rt) cs"
      by simp_all
    from step n1 have e: "?acc = acc" "finishReason ?g = finishReason g"
      "gen_usage ?g = gen_usage g" by blast+
    from ih n2 have "stream_finish ?rest ?acc = ?acc
          \<and> finishReason (generate_all rt ?g cs) = finishReason ?g
          \<and> gen_usage (generate_all rt ?g cs) = gen_usage ?g"
      by blast
    with e show "stream_finish (transform_all rt raw ws st (c # cs)) acc = acc
        \<and> finishReason (generate_all rt g (c # cs)) = finishReason g
        \<and> gen_usage (generate_all rt g (c # cs)) = gen_usage g"
      unfolding ta ga by (simp add: stream_finish_append)
  qed
  from 1 2 3 4 5 show ?case by blast
qed

lemma sim_init: "sim stream_init generate_init"
  by (simp add: sim_def stream_init_def generate_init_def)

lemma init_only_tool_calls:
  "result_tool_calls (toolCalls generate_init) = toolCalls generate_init
   \<and> result_text (toolCalls generate_init) = []"
  by (simp add: generate_init_def)

text \<open>
  Claim C1 as stated fails. On a body without \<open>response.completed\<close> whose
  \<open>function_call_arguments.done\<close> record has no id, the stream has no finish reason where
  the buffered result says \<open>stop\<close>, and the two tool call ids differ. On a text delta that
  is an object with a member \<open>toString\<close>, the stream passes the object on and the buffered
  result has no text. On a \<open>response.completed\<close> record whose token count is such an
  object, the stream ends with an \<open>error\<close> part in place of \<open>finish\<close>, and the buffered
  result has the finish reason of the record with an empty usage.
\<close>

theorem modes_differ_counterexample:
  "doStream sample_runtime no_options
       (ok_response [chunk text_delta_He, chunk args_done_no_id])
     = Inr [StreamStart [], TextStart ''uuid-0'', TextDelta ''uuid-0'' (JStr ''He''),
            ToolCall (JStr ''uuid-1'') (JStr ''ping'') (Some ''{}'')]
   \<and> doGenerate sample_runtime ''gpt-5'' no_options
       (ok_response [chunk text_delta_He, chunk args_done_no_id])
     = Inr \<lparr>content = [ContentText ''He'',
                        ContentToolCall (JStr ''uuid-0'') (JStr ''ping'') (Some ''{}'')],
            result_finishReason = \<lparr>unified = Stop, raw_reason = JStr ''stop''\<rparr>,
            result_usage = emptyUsage,
            result_warnings = [],
            response_id = None,
            response_modelId = JStr ''gpt-5''\<rparr>
   \<and> \<not> modes_agree sample_runtime ''gpt-5'' no_options
         (ok_response [chunk text_delta_He, chunk args_done_no_id])
   \<and> doStream sample_runtime no_options (ok_response [chunk text_delta_object])
     = Inr [StreamStart [], TextStart ''uuid-0'',
            TextDelta ''uuid-0'' (JObj [(''toString'', JNum 1)])]
   \<and> doGenerate sample_runtime ''gpt-5'' no_options (ok_response [chunk text_delta_object])
     = Inr \<lparr>content = [],
            result_finishReason = \<lparr>unified = Stop, raw_reason = JStr ''stop''\<rparr>,
            result_usage = emptyUsage,
            result_warnings = [],
            response_id = None,
            response_modelId = JStr ''gpt-5''\<rparr>
   \<and> \<not> modes_agree sample_runtime ''gpt-5'' no_options
         (ok_response [chunk text_delta_object])
   \<and> doStream sample_runtime no_options (ok_response [chunk completed_opaque])
     = Inr [StreamStart [], ResponseMetadata None None, ErrorPart TypeError]
   \<and> doGenerate sample_runtime ''gpt-5'' no_options (ok_response [chunk completed_opaque])
     = Inr \<lparr>content = [],
            result_finishReason = \<lparr>unified = Stop, raw_reason = JStr ''completed''\<rparr>,
            result_usage = emptyUsage,
            result_warnings = [],
            response_id = None,
            response_modelId = JStr ''gpt-5''\<rparr>
   \<and> \<not> modes_agree sample_runtime ''gpt-5'' no_options
         (ok_response [chunk completed_opaque])"
  by code_simp

text \<open>
  Claim C1, as the code has it. For the same response both modes give the same tool calls
  in the same order with the same tool name and input; the tool call ids are the same too
  when every \<open>function_call_arguments.done\<close> record carries a \<open>call_id\<close> or an \<open>item_id\<close>
  (otherwise each mode draws its own random id). When every text delta of the body can be
  converted to a string, the text deltas of the stream, concatenated, are the text of the
  buffered result. When the body has a \<open>response.completed\<close> record and \<open>extractUsage\<close>
  throws on none, the last \<open>finish\<close> part of the stream carries the finish reason and the
  usage of the buffered result. When the body has no \<open>response.completed\<close> record, the
  stream has no \<open>finish\<close> part, and the buffered result reports the finish reason \<open>stop\<close>
  and an empty usage.
\<close>

theorem stream_and_buffered_agree:
  assumes s: "doStream rt options response = Inr parts"
      and g: "doGenerate rt modelId options response = Inr res"
  shows "((\<forall>c \<in> set (body response). \<not> opaque_text_delta rt c) \<longrightarrow>
        stream_text rt parts = Some (result_text (content res)))
   \<and> map name_and_input (stream_tool_calls parts)
       = map name_and_input (result_tool_calls (content res))
   \<and> ((\<forall>c \<in> set (body response). \<not> draws_call_id rt c) \<longrightarrow>
        stream_tool_calls parts = result_tool_calls (content res))
   \<and> (list_ex (is_completed rt) (body response)
        \<and> (\<forall>c \<in> set (body response). \<not> usage_fails rt c) \<longrightarrow>
        stream_finish parts None = Some (result_finishReason res, result_usage res))
   \<and> (\<not> list_ex (is_completed rt) (body response) \<longrightarrow>
        stream_finish parts None = None
        \<and> result_finishReason res = mapFinishReason (JStr ''stop'')
        \<and> result_usage res = emptyUsage)"
proof -
  let ?g = "generate_all rt generate_init (body response)"
  from s have okr: "ok response"
    and parts: "parts = transform_all rt (includeRawChunks options)
                  (buildRequestBody_warnings options) stream_init (body response)"
    by (auto simp: doStream_def split: if_splits)
  from g okr have c: "content res
        = (if accumulatedText ?g \<noteq> [] then [ContentText (accumulatedText ?g)] else [])
          @ toolCalls ?g"
    and f: "result_finishReason res = finishReason ?g"
    and u: "result_usage res = gen_usage ?g"
    by (auto simp: doGenerate_def Let_def)
  from generate_all_only_tool_calls [OF init_only_tool_calls, of rt "body response"]
  have only: "result_tool_calls (toolCalls ?g) = toolCalls ?g" "result_text (toolCalls ?g) = []"
    by auto
  from c only have rtext: "result_text (content res) = accumulatedText ?g"
    and calls: "result_tool_calls (content res) = toolCalls ?g"
    by (auto simp: result_text_append result_tool_calls_append)
  have init: "accumulatedText generate_init = []" "toolCalls generate_init = []"
    "finishReason generate_init = mapFinishReason (JStr ''stop'')"
    "gen_usage generate_init = emptyUsage"
    by (simp_all add: generate_init_def)
  note am = all_modes [OF sim_init, of "body response" rt "includeRawChunks options"
         "buildRequestBody_warnings options" None]
  have 1: "(\<forall>c \<in> set (body response). \<not> opaque_text_delta rt c) \<longrightarrow>
        stream_text rt parts = Some (accumulatedText ?g)"
    using am unfolding parts init by auto
  from am show ?thesis unfolding rtext calls f u init
    using 1 unfolding parts by simp
qed

theorem stream_and_buffered_agree_witness:
  "stream_text sample_runtime hello_parts = Some ''Hello''
   \<and> stream_tool_calls hello_parts = []
   \<and> stream_finish hello_parts None
       = Some (\<lparr>unified = Stop, raw_reason = JStr ''completed''\<rparr>, completed_usage)"
proof -
  have s: "doStream sample_runtime no_options hello_response = Inr hello_parts"
    by code_simp
  have g: "doGenerate sample_runtime ''gpt-5'' no_options hello_response = Inr hello_result"
    by code_simp
  have d: "\<forall>c \<in> set (body hello_response). \<not> draws_call_id sample_runtime c"
    by code_simp
  have c: "list_ex (is_completed sample_runtime) (body hello_response)"
    by code_simp
  have o: "\<forall>c \<in> set (body hello_response). \<not> opaque_text_delta sample_runtime c"
    by code_simp
  have f: "\<forall>c \<in> set (body hello_response). \<not> usage_fails sample_runtime c"
    by code_simp
  from stream_and_buffered_agree [OF s g] d c o f
  show ?thesis by (simp add: hello_result_def)
qed

section \<open>Reasoning in buffered mode\<close>

lemma generate_step_reasoning: "is_reasoning_chunk rt c \<Longrightarrow> generate_step rt g c = g"
  by (cases "parsed_of rt c")
     (auto simp: is_reasoning_chunk_def chunk_type_def generate_step_parsed)

lemma generate_all_without_reasoning:
  "generate_all rt g (filter (\<lambda>c. \<not> is_reasoning_chunk rt c) cs) = generate_all rt g cs"
  by (induction cs arbitrary: g) (simp_all add: generate_step_reasoning)

lemma dispatch_no_reasoning_content:
  "\<not> list_ex is_reasoning_content (toolCalls g)
     \<Longrightarrow> \<not> list_ex is_reasoning_content (toolCalls (generate_dispatch rt g parsed ty))"
  by (cases ty) (auto simp: Let_def split_beta split: option.splits sum.splits)

lemma generate_all_no_reasoning_content:
  "\<not> list_ex is_reasoning_content (toolCalls g)
     \<Longrightarrow> \<not> list_ex is_reasoning_content (toolCalls (generate_all rt g cs))"
proof (induction cs arbitrary: g)
  case Nil
  then show ?case by simp
next
  case (Cons c cs)
  have "\<not> list_ex is_reasoning_content (toolCalls (generate_step rt g c))"
  proof (cases "parsed_of rt c")
    case None
    with Cons.prems show ?thesis by (simp add: generate_step_unparsed)
  next
    case (Some parsed)
    with dispatch_no_reasoning_content [OF Cons.prems] show ?thesis
      by (simp add: generate_step_parsed)
  qed
  from Cons.IH [OF this] show ?case by simp
qed

lemma transform_reasoning_delta:
  "chunk_type rt c = Some ReasoningSummaryTextDelta
     \<Longrightarrow> list_ex is_reasoning_part (fst (transform rt raw ws st c))"
  by (cases "parsed_of rt c")
     (auto simp: chunk_type_def transform_parsed Let_def split: option.splits sum.splits)

lemma transform_all_reasoning_delta:
  "list_ex (\<lambda>c. chunk_type rt c = Some ReasoningSummaryTextDelta) cs
     \<Longrightarrow> list_ex is_reasoning_part (transform_all rt raw ws st cs)"
proof (induction cs arbitrary: st)
  case Nil
  then show ?case by simp
next
  case (Cons c cs)
  show ?case
  proof (cases "chunk_type rt c = Some ReasoningSummaryTextDelta")
    case True
    from transform_reasoning_delta [OF True, of raw ws st] show ?thesis
      by (simp add: split_beta)
  next
    case False
    with Cons.prems have "list_ex (\<lambda>c. chunk_type rt c = Some ReasoningSummaryTextDelta) cs"
      by simp
    from Cons.IH [OF this] show ?thesis by (simp add: split_beta)
  qed
qed

text \<open>
  Claim C10. Buffered mode never produces reasoning content. Taking the
  \<open>reasoning_summary_text.delta\<close> and \<open>reasoning_summary_text.done\<close> records out of a
  body does not change the result of \<open>doGenerate\<close>, and no element of the content of a
  result is reasoning. The stream of the same body has a reasoning part as soon as the body
  has a \<open>reasoning_summary_text.delta\<close> record.
\<close>

theorem buffered_drops_reasoning:
  "doGenerate rt modelId options
       (response\<lparr>body := filter (\<lambda>c. \<not> is_reasoning_chunk rt c) (body response)\<rparr>)
     = doGenerate rt modelId options response
   \<and> (\<forall>res. doGenerate rt modelId options response = Inr res
          \<longrightarrow> \<not> list_ex is_reasoning_content (content res))
   \<and> (\<forall>parts. doStream rt options response = Inr parts
          \<and> list_ex (\<lambda>c. chunk_type rt c = Some ReasoningSummaryTextDelta) (body response)
        \<longrightarrow> list_ex is_reasoning_part parts)"
proof (intro conjI allI impI)
  show "doGenerate rt modelId options
       (response\<lparr>body := filter (\<lambda>c. \<not> is_reasoning_chunk rt c) (body response)\<rparr>)
     = doGenerate rt modelId options response"
    by (simp add: doGenerate_def api_error_def generate_all_without_reasoning
          split: option.splits)
next
  fix res assume "doGenerate rt modelId options response = Inr res"
  moreover have "\<not> list_ex is_reasoning_content (toolCalls generate_init)"
    by (simp add: generate_init_def)
  note generate_all_no_reasoning_content [OF this, of rt "body response"]
  ultimately show "\<not> list_ex is_reasoning_content (content res)"
    by (auto simp: doGenerate_def Let_def split: if_splits)
next
  fix parts
  assume "doStream rt options response = Inr parts
          \<and> list_ex (\<lambda>c. chunk_type rt c = Some ReasoningSummaryTextDelta) (body response)"
  with transform_all_reasoning_delta show "list_ex is_reasoning_part parts"
    by (auto simp: doStream_def split: if_splits)
qed

theorem buffered_drops_reasoning_witness:
  "doGenerate sample_runtime ''gpt-5'' no_options thinking_response
     = doGenerate sample_runtime ''gpt-5'' no_options
         (ok_response [chunk text_delta_He, chunk completed])
   \<and> content (projr (doGenerate sample_runtime ''gpt-5'' no_options thinking_response))
       = [ContentText ''He'']
   \<and> list_ex is_reasoning_part
       [StreamStart [], ReasoningStart ''uuid-0'', ReasoningDelta ''uuid-0'' (JStr ''hm''),
        ReasoningEnd ''uuid-0'', TextStart ''uuid-1'', TextDelta ''uuid-1'' (JStr ''He''),
        TextEnd ''uuid-1'',
        ResponseMetadata (Some (JStr ''resp_1'')) (Some (JStr ''gpt-5'')),
        Finish \<lparr>unified = Stop, raw_reason = JStr ''completed''\<rparr> completed_usage]"
proof -
  have f: "thinking_response\<lparr>body := filter (\<lambda>c. \<not> is_reasoning_chunk sample_runtime c)
                                         (body thinking_response)\<rparr>
             = ok_response [chunk text_delta_He, chunk completed]"
    by code_simp
  have s: "doStream sample_runtime no_options thinking_response
     = Inr [StreamStart [], ReasoningStart ''uuid-0'', ReasoningDelta ''uuid-0'' (JStr ''hm''),
        ReasoningEnd ''uuid-0'', TextStart ''uuid-1'', TextDelta ''uuid-1'' (JStr ''He''),
        TextEnd ''uuid-1'',
        ResponseMetadata (Some (JStr ''resp_1'')) (Some (JStr ''gpt-5'')),
        Finish \<lparr>unified = Stop, raw_reason = JStr ''completed''\<rparr> completed_usage]"
    by code_simp
  have d: "list_ex (\<lambda>c. chunk_type sample_runtime c = Some ReasoningSummaryTextDelta)
             (body thinking_response)"
    by code_simp
  have c: "content (projr (doGenerate sample_runtime ''gpt-5'' no_options thinking_response))
       = [ContentText ''He'']"
    by code_simp
  from buffered_drops_reasoning [of sample_runtime "''gpt-5''" no_options thinking_response]
       f s d c
  show ?thesis by auto
qed

section \<open>Resolving a tool call\<close>















section \<open>The layers of the headers\<close>

text \<open>
  The order of the layers, branch by branch. In refresh token mode and in file based mode
  the custom headers of the caller are spread last: every header the caller supplies is in
  the returned map with the caller's value. With an explicit key and with the key of the
  environment they are spread first: \<open>Authorization\<close> is the bearer header of the configured
  key and \<open>Content-Type\<close> is the computed one whatever the caller supplies, and every other
  header is the caller's.
\<close>

lemma getHeaders_caller_last:
  assumes "getHeaders options session envKey authHeaders = Inr h"
      and "auth_mode_of options = RefreshTokenMode \<or> auth_mode_of options = FileBased"
  shows "caller_wins (custom_headers options) h"
  using assms
  by (auto simp: getHeaders_def auth_mode_of_def caller_wins_def map_add_def
           split: option.splits sum.splits if_splits)

lemma getHeaders_explicit_key:
  assumes "getHeaders options session envKey authHeaders = Inr h"
      and "auth_mode_of options = ExplicitKey"
  shows "\<exists>key. apiKey options = Some key \<and> key \<noteq> []
           \<and> h = (custom_headers options)
                   (''Authorization'' \<mapsto> ''Bearer '' @ key,
                    ''Content-Type'' \<mapsto> ''application/json'')"
  using assms
  by (cases "apiKey options")
     (auto simp: getHeaders_def auth_mode_of_def split: if_splits)

lemma getHeaders_environment_key:
  assumes "getHeaders options session envKey authHeaders = Inr h"
      and "auth_mode_of options = EnvironmentKey"
  shows "\<exists>key. envKey = Inr key
           \<and> h = (custom_headers options)
                   (''Authorization'' \<mapsto> ''Bearer '' @ key,
                    ''Content-Type'' \<mapsto> ''application/json'')"
  using assms
  by (auto simp: getHeaders_def auth_mode_of_def split: option.splits sum.splits if_splits)

lemma getHeaders_caller_last_example:
  "header_of (getHeaders file_settings (Inl TypeError) (Inl TypeError)
                (CodexAuth_getHeaders (Inr ''at-9'') (Inr ''acct-9'')))
      ''accept'' = Some ''application/json''"
  by (simp add: getHeaders_def file_settings_def CodexAuth_getHeaders_def header_of_def
        map_add_def)

text \<open>
  Claim C3: in every auth mode the headers of the caller are applied last, so that a header
  the caller supplies under a computed name is returned with the caller's value. The
  refresh token branch and the file based branch of \<open>getHeaders\<close> spread \<open>options.headers\<close>
  last and do so. The explicit key branch and the environment key branch spread it first:
  with the custom header \<open>Authorization: Basic abc\<close>, the explicit key \<open>sk-1\<close> returns
  \<open>Bearer sk-1\<close> and the environment key \<open>sk-env\<close> returns \<open>Bearer sk-env\<close>, where the
  refresh token branch returns the caller's \<open>Basic abc\<close> for the same custom headers.
\<close>

theorem key_branches_override_caller:
  "custom_headers key_settings ''Authorization'' = Some ''Basic abc''
   \<and> auth_mode_of key_settings = ExplicitKey
   \<and> header_of (getHeaders key_settings (Inl TypeError) (Inl TypeError) (Inl TypeError))
        ''Authorization'' = Some ''Bearer sk-1''
   \<and> custom_headers env_settings ''Authorization'' = Some ''Basic abc''
   \<and> auth_mode_of env_settings = EnvironmentKey
   \<and> header_of (getHeaders env_settings (Inl TypeError) (Inr ''sk-env'') (Inl TypeError))
        ''Authorization'' = Some ''Bearer sk-env''
   \<and> custom_headers refresh_settings ''Authorization'' = Some ''Basic abc''
   \<and> auth_mode_of refresh_settings = RefreshTokenMode
   \<and> header_of (getHeaders refresh_settings (Inr sample_session) (Inl TypeError)
                   (Inl TypeError))
        ''Authorization'' = Some ''Basic abc''"
  by (simp add: key_settings_def env_settings_def refresh_settings_def sample_session_def
        getHeaders_def header_of_def auth_mode_of_def map_add_def)

end
